theory Spec2Isabelle
  imports Main
begin

section \<open>JavaScript values\<close>

text \<open>
  A JavaScript string is modelled as the list of its Unicode code points; \<open>ascii\<close> writes
  the code points of a literal of ASCII characters.  Numbers are modelled as unbounded
  integers (the depth counters and the identifiers of the store are integers).
\<close>

type_synonym jsstring = "nat list"

definition ascii :: "string \<Rightarrow> jsstring" where
  "ascii s = map of_char s"

text \<open>
  The values a column of the store holds in a row decoded from JSON: \<open>null\<close>, a number
  or a string.  On these values \<open>===\<close> is the equality of HOL, and \<open>truthy\<close> is
  the conversion to a boolean that \<open>x ? a : b\<close> and \<open>if (x)\<close> apply.
\<close>

datatype jsval = JNull | JNum int | JStr jsstring

fun truthy :: "jsval \<Rightarrow> bool" where
  "truthy JNull = False"
| "truthy (JNum n) = (n \<noteq> 0)"
| "truthy (JStr s) = (s \<noteq> [])"

section \<open>Horse records and tree nodes\<close>

text \<open>
  A row of table \<open>cavalos\<close>, with the columns that \<open>fetchHorses\<close> selects.  Field
  \<open>id\<close> of the source is \<open>horse_id\<close> here.
\<close>

record horse =
  horse_id :: jsval
  created_at :: jsstring
  nome :: jsstring
  raca :: jsstring
  url_imagem :: "jsstring option"
  pai_id :: jsval
  mae_id :: jsval
  idade :: int
  sexo :: jsstring

text \<open>
  The object that \<open>buildD3AncestryData\<close> builds: fields \<open>id, name, breed, age, sex,
  photoUrl, children\<close>, in this order (\<open>id\<close> is \<open>node_id\<close> here).
\<close>

datatype tree_node =
  TreeNode (node_id: jsval) (name: jsstring) (breed: jsstring) (age: int) (sex: jsstring)
    (photoUrl: "jsstring option") (children: "tree_node list")

text \<open>\<open>children.filter(child => child !== null)\<close>\<close>

fun filter_non_null :: "'a option list \<Rightarrow> 'a list" where
  "filter_non_null [] = []"
| "filter_non_null (None # cs) = filter_non_null cs"
| "filter_non_null (Some c # cs) = c # filter_non_null cs"

section \<open>buildD3AncestryData\<close>

text \<open>
  The argument \<open>horse\<close> is a row or \<open>undefined\<close>/\<open>null\<close> (\<open>None\<close>), and so is the
  result of \<open>allHorses.find\<close>, which \<^const>\<open>find\<close> models: the first element that
  satisfies the predicate.  The result \<open>None\<close> is the \<open>null\<close> that the function returns.
\<close>

function buildD3AncestryData ::
  "horse option \<Rightarrow> horse list \<Rightarrow> int \<Rightarrow> int \<Rightarrow> tree_node option" where
  "buildD3AncestryData horse allHorses maxDepth currentDepth =
    (case horse of
       None \<Rightarrow> None
     | Some h \<Rightarrow>
        if currentDepth \<ge> maxDepth then None
        else
          Some (TreeNode (horse_id h) (nome h) (raca h) (idade h) (sexo h) (url_imagem h)
            (if currentDepth < maxDepth - 1 then
               let father = (if truthy (pai_id h)
                             then find (\<lambda>x. horse_id x = pai_id h) allHorses else None);
                   mother = (if truthy (mae_id h)
                             then find (\<lambda>x. horse_id x = mae_id h) allHorses else None);
                   pushed_father =
                     (if father \<noteq> None
                      then [buildD3AncestryData father allHorses maxDepth (currentDepth + 1)]
                      else []);
                   pushed_mother =
                     (if mother \<noteq> None
                      then pushed_father @
                        [buildD3AncestryData mother allHorses maxDepth (currentDepth + 1)]
                      else pushed_father)
               in filter_non_null pushed_mother
             else [])))"
  by pat_completeness auto
termination
  by (relation "measure (\<lambda>(horse, allHorses, maxDepth, currentDepth). nat (maxDepth - currentDepth))")
    auto

text \<open>
  The defining equation calls itself on its right-hand side, so it is unfolded by hand
  (\<open>subst\<close>) and is not a rewrite rule of the simplifier.
\<close>

declare buildD3AncestryData.simps [simp del]

subsection \<open>Measures of a tree and ancestor chains\<close>

text \<open>
  \<open>height\<close> is the number of nodes on a longest path from the root to a leaf,
  \<open>node_count\<close> the number of nodes, and \<open>nodes_at k t\<close> the nodes at depth \<open>k\<close>
  below \<open>t\<close> (depth 0 is \<open>t\<close> itself).
\<close>

fun height :: "tree_node \<Rightarrow> nat" where
  "height (TreeNode i n b a s p cs) = Suc (foldr max (map height cs) 0)"

fun node_count :: "tree_node \<Rightarrow> nat" where
  "node_count (TreeNode i n b a s p cs) = Suc (sum_list (map node_count cs))"

fun nodes_at :: "nat \<Rightarrow> tree_node \<Rightarrow> tree_node list" where
  "nodes_at 0 t = [t]"
| "nodes_at (Suc k) t = concat (map (nodes_at k) (children t))"

text \<open>
  The parents of \<open>h\<close> that are available in the collection: a reference that is set and
  that some row carries as its id gives the first such row, the father before the mother.
  An ancestor chain (\<open>lineage\<close>) is a list of rows in which each row is followed by one
  of its available parents.  The parent graph may have cycles, and then chains of every
  length exist.
\<close>

definition parents_of :: "horse list \<Rightarrow> horse \<Rightarrow> horse list" where
  "parents_of allHorses h =
     (if truthy (pai_id h) then
        (case find (\<lambda>x. horse_id x = pai_id h) allHorses of None \<Rightarrow> [] | Some f \<Rightarrow> [f])
      else []) @
     (if truthy (mae_id h) then
        (case find (\<lambda>x. horse_id x = mae_id h) allHorses of None \<Rightarrow> [] | Some m \<Rightarrow> [m])
      else [])"

fun lineage :: "horse list \<Rightarrow> horse list \<Rightarrow> bool" where
  "lineage allHorses (h # p # rest) = (p \<in> set (parents_of allHorses h) \<and> lineage allHorses (p # rest))"
| "lineage allHorses rest = True"

text \<open>
  \<open>ancestry allHorses n h\<close> is the tree of \<open>n\<close> generations above \<open>h\<close>, by recursion on
  the number of generations left.  It is what \<open>buildD3AncestryData\<close> returns when
  \<open>maxDepth - currentDepth = n\<close> (lemma \<open>build_ancestry\<close> below).
\<close>

primrec ancestry :: "horse list \<Rightarrow> nat \<Rightarrow> horse \<Rightarrow> tree_node" where
  "ancestry allHorses 0 h =
     TreeNode (horse_id h) (nome h) (raca h) (idade h) (sexo h) (url_imagem h) []"
| "ancestry allHorses (Suc n) h =
     TreeNode (horse_id h) (nome h) (raca h) (idade h) (sexo h) (url_imagem h)
       (if n = 0 then [] else map (ancestry allHorses n) (parents_of allHorses h))"

subsection \<open>Example collections\<close>

text \<open>
  \<open>scenario\<close> is the collection of the specification's scenario (A and B without
  parents, C their foal).  In \<open>cyclic\<close> A and B name each other as parent; in
  \<open>dangling\<close> the father of C is an id that no row has.
\<close>

definition example_horse :: "int \<Rightarrow> string \<Rightarrow> jsval \<Rightarrow> jsval \<Rightarrow> horse" where
  "example_horse i n f m =
     \<lparr>horse_id = JNum i, created_at = [], nome = ascii n, raca = ascii ''Lusitano'',
      url_imagem = None, pai_id = f, mae_id = m, idade = 7, sexo = ascii ''Macho''\<rparr>"

definition scenario :: "horse list" where
  "scenario = [example_horse 1 ''A'' JNull JNull, example_horse 2 ''B'' JNull JNull,
     example_horse 3 ''C'' (JNum 1) (JNum 2)]"

definition cyclic :: "horse list" where
  "cyclic = [example_horse 1 ''A'' JNull (JNum 2), example_horse 2 ''B'' (JNum 1) JNull,
     example_horse 3 ''C'' (JNum 1) (JNum 2)]"

definition dangling :: "horse list" where
  "dangling = [example_horse 2 ''B'' JNull JNull, example_horse 3 ''C'' (JNum 99) (JNum 2)]"

section \<open>capitalizeEachWord\<close>

text \<open>
  \<open>String.prototype.toLowerCase\<close>, \<open>String.prototype.toUpperCase\<close> and the property
  escape \<open>\p{L}\<close> of the regular expression are given by the Unicode character tables,
  which the repository does not contain.  They are a parameter of the model: a record
  with the two case conversions, as functions on strings, and the set of letters.
\<close>

record unicode =
  toLowerCase :: "jsstring \<Rightarrow> jsstring"
  toUpperCase :: "jsstring \<Rightarrow> jsstring"
  is_L :: "nat \<Rightarrow> bool"

text \<open>
  The class \<open>\s\<close> of a regular expression: tab, line feed, vertical tab, form feed,
  carriage return, space, no-break space, U+1680, U+2000 to U+200A, the line and
  paragraph separators, U+202F, U+205F, U+3000 and U+FEFF.
\<close>

definition is_space :: "nat \<Rightarrow> bool" where
  "is_space c \<longleftrightarrow>
     c \<in> {9, 10, 11, 12, 13, 32, 160, 5760, 8232, 8233, 8239, 8287, 12288, 65279} \<or>
     (8192 \<le> c \<and> c \<le> 8202)"

text \<open>
  What the group \<open>(?:^|\s|\/|-|'|")\<close> consumes when it consumes a character: white
  space, \<open>/\<close> (47), \<open>-\<close> (45), \<open>'\<close> (39) or \<open>"\<close> (34).
\<close>

definition is_boundary :: "nat \<Rightarrow> bool" where
  "is_boundary c \<longleftrightarrow> is_space c \<or> c = 47 \<or> c = 45 \<or> c = 39 \<or> c = 34"

text \<open>
  \<open>.replace(/(?:^|\s|\/|-|'|")(\p{L})/gu, (match) => match.toUpperCase())\<close>.  The
  expression is matched from left to right and the matches do not overlap.  At the
  first position \<open>^\<close> is tried first: a letter there is a match of one character.  At
  any position a boundary character followed by a letter is a match of two characters.
  Each match is replaced by its upper case, every other character is kept, and the
  search goes on behind the match.  \<open>replace_after\<close> is the search from a position that
  is not the first.
\<close>

fun replace_after :: "unicode \<Rightarrow> jsstring \<Rightarrow> jsstring" where
  "replace_after U (a # b # s) =
     (if is_boundary a \<and> is_L U b then toUpperCase U [a, b] @ replace_after U s
      else a # replace_after U (b # s))"
| "replace_after U s = s"

definition replace_initials :: "unicode \<Rightarrow> jsstring \<Rightarrow> jsstring" where
  "replace_initials U s =
     (case s of
        [] \<Rightarrow> []
      | a # r \<Rightarrow> if is_L U a then toUpperCase U [a] @ replace_after U r
                 else replace_after U s)"

definition capitalizeEachWord :: "unicode \<Rightarrow> jsstring \<Rightarrow> jsstring" where
  "capitalizeEachWord U str =
     (if str = [] then [] else replace_initials U (toLowerCase U str))"

subsection \<open>The normalization as the specification words it\<close>

text \<open>
  The specification's sentence: the text is normalized "by capitalizing the first letter
  of each word-like segment (bounded by whitespace and the characters \<open>/\<close>, \<open>-\<close>, \<open>'\<close>,
  \<open>"\<close>)".  \<open>split_segments\<close> cuts a text behind every boundary character, so that each
  piece is one segment followed by the boundary character that ends it;
  \<open>capitalize_first\<close> puts the first character of a piece in upper case when it is a
  letter; \<open>capitalize_segments\<close> does so in every piece and leaves all other
  characters as they are.
\<close>

fun split_segments :: "jsstring \<Rightarrow> jsstring list" where
  "split_segments [] = []"
| "split_segments (c # s) =
     (if is_boundary c then [c] # split_segments s
      else (case split_segments s of
              [] \<Rightarrow> [[c]]
            | p # ps \<Rightarrow> (c # p) # ps))"

definition capitalize_first :: "unicode \<Rightarrow> jsstring \<Rightarrow> jsstring" where
  "capitalize_first U p =
     (case p of [] \<Rightarrow> [] | c # r \<Rightarrow> if is_L U c then toUpperCase U [c] @ r else p)"

definition capitalize_segments :: "unicode \<Rightarrow> jsstring \<Rightarrow> jsstring" where
  "capitalize_segments U s = concat (map (capitalize_first U) (split_segments s))"

text \<open>
  The normalization with the lower-casing that \<open>capitalizeEachWord\<close> starts with: the
  whole text in lower case, then the first letter of each segment in upper case.
\<close>

definition lowercase_then_capitalize :: "unicode \<Rightarrow> jsstring \<Rightarrow> jsstring" where
  "lowercase_then_capitalize U s = capitalize_segments U (toLowerCase U s)"

subsection \<open>The character tables of Basic Latin and Latin-1 Supplement\<close>

text \<open>
  \<open>latin1\<close> is an instance of the parameter: the Unicode data of the code points
  U+0000 to U+00FF, and of the three code points outside this range that their case
  mappings reach (U+0178, U+039C, U+03BC).  Upper case: \<open>a-z\<close> and U+00E0 to U+00FE
  (without the division sign U+00F7) move down by 32, the sharp s (U+00DF) becomes
  \<open>SS\<close>, U+00FF becomes U+0178, the micro sign (U+00B5) and U+03BC become U+039C.
  Lower case: \<open>A-Z\<close> and U+00C0 to U+00DE (without the multiplication sign U+00D7)
  move up by 32, U+0178 becomes U+00FF, U+039C becomes U+03BC.  Letters: \<open>A-Z\<close>,
  \<open>a-z\<close>, U+00AA, U+00B5, U+00BA, U+00C0 to U+00FF without the two signs, and the
  three code points above.  Other code points are outside the tables (here they are
  left unchanged and are no letters); the theorems that use \<open>latin1\<close> are about
  strings of the code points of the tables.
\<close>

definition lower_cp :: "nat \<Rightarrow> nat" where
  "lower_cp c =
     (if 65 \<le> c \<and> c \<le> 90 then c + 32
      else if 192 \<le> c \<and> c \<le> 222 \<and> c \<noteq> 215 then c + 32
      else if c = 376 then 255
      else if c = 924 then 956
      else c)"

definition upper_cp :: "nat \<Rightarrow> jsstring" where
  "upper_cp c =
     (if 97 \<le> c \<and> c \<le> 122 then [c - 32]
      else if 224 \<le> c \<and> c \<le> 254 \<and> c \<noteq> 247 then [c - 32]
      else if c = 223 then [83, 83]
      else if c = 255 then [376]
      else if c = 181 \<or> c = 956 then [924]
      else [c])"

definition letter_cp :: "nat \<Rightarrow> bool" where
  "letter_cp c \<longleftrightarrow>
     (65 \<le> c \<and> c \<le> 90) \<or> (97 \<le> c \<and> c \<le> 122) \<or> c = 170 \<or> c = 181 \<or> c = 186 \<or>
     (192 \<le> c \<and> c \<le> 255 \<and> c \<noteq> 215 \<and> c \<noteq> 247) \<or> c = 376 \<or> c = 924 \<or> c = 956"

definition latin1 :: unicode where
  "latin1 = \<lparr>toLowerCase = map lower_cp, toUpperCase = (\<lambda>s. concat (map upper_cp s)),
     is_L = letter_cp\<rparr>"

subsection \<open>Notions used in the proofs about capitalizeEachWord\<close>

text \<open>
  What the proofs ask of the character tables: no letter is a boundary character,
  upper-casing a boundary character with a letter behind it leaves the boundary
  character as it is, and the lower case of the empty string is empty.  The Unicode
  tables are so; \<open>latin1\<close> is (lemma \<open>plain_boundaries_latin1\<close>).
\<close>

definition plain_boundaries :: "unicode \<Rightarrow> bool" where
  "plain_boundaries U \<longleftrightarrow>
     (\<forall>c. is_L U c \<longrightarrow> \<not> is_boundary c) \<and>
     (\<forall>b c. is_boundary b \<longrightarrow> toUpperCase U [b, c] = b # toUpperCase U [c]) \<and>
     toLowerCase U [] = []"

text \<open>
  One pass over a text that puts a letter in upper case when it stands at a position
  marked as the start of a segment: both the replacement by the regular expression and
  \<open>capitalize_segments\<close> are this pass, started with the mark set.
\<close>

fun capitalize_from :: "unicode \<Rightarrow> bool \<Rightarrow> jsstring \<Rightarrow> jsstring" where
  "capitalize_from U start [] = []"
| "capitalize_from U start (c # s) =
     (if start \<and> is_L U c then toUpperCase U [c] else [c]) @ capitalize_from U (is_boundary c) s"





section \<open>The application state and the external services\<close>

text \<open>
  The state of component \<open>App\<close> (its \<open>useState\<close> variables), together with what the
  component does to the outside: the texts shown by \<open>alert\<close>, the arguments of
  \<open>console.error\<close>, and the requests sent through the Supabase client, each list in
  the order of the calls.
\<close>

datatype view_mode = View_list | View_details | View_add | View_lineageTree

record js_file =
  file_name :: jsstring

text \<open>The object that \<open>addHorse\<close> passes to \<open>insert\<close>.\<close>

record insert_row =
  ins_nome :: jsstring
  ins_raca :: jsstring
  ins_idade :: "int option"
  ins_sexo :: jsstring
  ins_pai_id :: jsval
  ins_mae_id :: jsval
  ins_url_imagem :: "jsstring option"

datatype request =
    Upload jsstring js_file
  | GetPublicUrl jsstring
  | Insert insert_row

record app =
  horses :: "horse list"
  loading :: bool
  error :: "jsstring option"
  viewMode :: view_mode
  selectedHorseId :: jsval
  isSharedView :: bool
  shareMessage :: jsstring
  alerts :: "jsstring list"
  console_error :: "jsstring list list"
  requests :: "request list"

text \<open>
  What the outside answers during one run of \<open>addHorse\<close>: the identifier that \<open>uuidv4\<close>
  returns, the \<open>message\<close> of the error of \<open>upload\<close> (\<open>None\<close> when the error is \<open>null\<close>),
  the \<open>data\<close> of \<open>getPublicUrl\<close> (\<open>None\<close> when it is missing, \<open>Some None\<close> when it has
  no \<open>publicUrl\<close>), and the answer of \<open>insert(...).select()\<close>: the \<open>message\<close> of its
  error, or the created row \<open>data[0]\<close>.
\<close>

record responses =
  uuid :: jsstring
  upload_error :: "jsstring option"
  public_url_data :: "jsstring option option"
  insert_response :: "jsstring + horse"

section \<open>The form\<close>

text \<open>
  The state of component \<open>HorseForm\<close>.  The variables \<open>name\<close>, \<open>breed\<close>, \<open>age\<close>, \<open>sex\<close>,
  \<open>fatherId\<close>, \<open>motherId\<close> and \<open>birthDate\<close> hold the texts of the inputs and carry the
  suffix \<open>_input\<close> here; the fields of the object given to \<open>onAddHorse\<close> carry the
  prefix \<open>new_\<close> where the name is taken.
\<close>

record form =
  name_input :: jsstring
  breed_input :: jsstring
  age_input :: jsstring
  sex_input :: jsstring
  selectedFile :: "js_file option"
  previewPhoto :: "jsstring option"
  fatherId_input :: jsstring
  motherId_input :: jsstring
  birthDate_input :: jsstring

record new_horse =
  new_name :: jsstring
  new_breed :: jsstring
  new_age :: "int option"
  new_sex :: jsstring
  fatherId :: jsval
  motherId :: jsval
  birthDate :: "jsstring option"
  photoFile :: "js_file option"

subsection \<open>parseInt\<close>

text \<open>
  \<open>parseInt(string)\<close> without a radix: leading white space is skipped, a sign is read,
  the prefix \<open>0x\<close> or \<open>0X\<close> selects radix 16 and radix 10 is used otherwise, and the
  longest run of digits of the radix is the value; \<open>None\<close> is \<open>NaN\<close>, the result when
  there is no digit.
\<close>

definition digit_value :: "nat \<Rightarrow> nat option" where
  "digit_value c =
     (if 48 \<le> c \<and> c \<le> 57 then Some (c - 48)
      else if 97 \<le> c \<and> c \<le> 122 then Some (c - 87)
      else if 65 \<le> c \<and> c \<le> 90 then Some (c - 55)
      else None)"

definition is_digit :: "nat \<Rightarrow> nat \<Rightarrow> bool" where
  "is_digit R c = (case digit_value c of None \<Rightarrow> False | Some v \<Rightarrow> v < R)"

definition digits_value :: "nat \<Rightarrow> jsstring \<Rightarrow> nat" where
  "digits_value R z = foldl (\<lambda>acc c. acc * R + (case digit_value c of None \<Rightarrow> 0 | Some v \<Rightarrow> v)) 0 z"

definition parseInt :: "jsstring \<Rightarrow> int option" where
  "parseInt string =
     (let s = dropWhile is_space string;
          negative = (case s of [] \<Rightarrow> False | c # _ \<Rightarrow> c = 45);
          s = (case s of [] \<Rightarrow> [] | c # r \<Rightarrow> if c = 43 \<or> c = 45 then r else s);
          hex = (case s of a # b # _ \<Rightarrow> a = 48 \<and> (b = 120 \<or> b = 88) | _ \<Rightarrow> False);
          R = (if hex then 16 else 10);
          s = (if hex then drop 2 s else s);
          z = takeWhile (is_digit R) s
      in if z = [] then None
         else Some ((if negative then - 1 else 1) * int (digits_value R z)))"

subsection \<open>handleSubmit and addHorse\<close>

text \<open>The texts of the messages; the code points above 127 are written as numbers.\<close>

definition required_fields_message :: jsstring where
  "required_fields_message =
     ascii ''Por favor, preencha todos os campos obrigat'' @ [243] @ ascii ''rios (Nome, Ra'' @
     [231] @ ascii ''a, Idade, Sexo).''"

definition no_public_url_message :: jsstring where
  "no_public_url_message =
     ascii ''N'' @ [227] @ ascii ''o foi poss'' @ [237] @ ascii ''vel obter o URL p'' @ [250] @
     ascii ''blico da imagem ap'' @ [243] @ ascii ''s o upload.''"

definition failure_message :: "jsstring \<Rightarrow> jsstring" where
  "failure_message message = ascii ''Falha ao adicionar cavalo: '' @ message"

text \<open>\<open>photoFile.name.split('.').pop()\<close>: what follows the last dot, or the whole name.\<close>

definition split_pop :: "jsstring \<Rightarrow> jsstring" where
  "split_pop n = rev (takeWhile (\<lambda>c. c \<noteq> 46) (rev n))"

text \<open>
  The \<open>try\<close> block of \<open>addHorse\<close> in two parts.  Each returns the state reached and
  either the \<open>message\<close> of the error thrown (\<open>Inl\<close>) or its value.  \<open>upload_photo\<close> is
  step 1 for an attached file and yields the public URL; \<open>insert_horse\<close> is step 2 and
  yields the created row.
\<close>

definition upload_photo :: "js_file \<Rightarrow> responses \<Rightarrow> app \<Rightarrow> (jsstring + jsstring) \<times> app" where
  "upload_photo file r s =
     (let fileExtension = split_pop (file_name file);
          fileName = uuid r @ ascii ''.'' @ fileExtension;
          filePath = ascii ''public/'' @ fileName;
          s = s\<lparr>requests := requests s @ [Upload filePath file]\<rparr>
      in case upload_error r of
           Some message \<Rightarrow> (Inl message, s)
         | None \<Rightarrow>
            (let s = s\<lparr>requests := requests s @ [GetPublicUrl filePath]\<rparr>
             in case public_url_data r of
                  Some (Some publicUrl) \<Rightarrow>
                    if publicUrl \<noteq> [] then (Inr publicUrl, s)
                    else (Inl no_public_url_message, s)
                | _ \<Rightarrow> (Inl no_public_url_message, s)))"

definition insert_horse ::
  "new_horse \<Rightarrow> jsstring option \<Rightarrow> responses \<Rightarrow> app \<Rightarrow> (jsstring + horse) \<times> app" where
  "insert_horse newHorseData photo_url r s =
     (let s = s\<lparr>requests := requests s @
            [Insert \<lparr>ins_nome = new_name newHorseData, ins_raca = new_breed newHorseData,
               ins_idade = new_age newHorseData, ins_sexo = new_sex newHorseData,
               ins_pai_id = fatherId newHorseData, ins_mae_id = motherId newHorseData,
               ins_url_imagem = photo_url\<rparr>]\<rparr>
      in (insert_response r, s))"

text \<open>
  \<open>addHorse\<close>: the two steps in sequence, the \<open>catch\<close> clause (which reports the
  message on the console, in the \<open>error\<close> state and in an alert) and the \<open>finally\<close>
  clause.
\<close>

definition addHorse :: "new_horse \<Rightarrow> responses \<Rightarrow> app \<Rightarrow> app" where
  "addHorse newHorseData r s =
     (let s = s\<lparr>loading := True, error := None\<rparr>;
          (uploaded, s) =
            (case photoFile newHorseData of
               None \<Rightarrow> (Inr None, s)
             | Some file \<Rightarrow>
                (case upload_photo file r s of
                   (Inl message, s) \<Rightarrow> (Inl message, s)
                 | (Inr publicUrl, s) \<Rightarrow> (Inr (Some publicUrl), s)));
          (inserted, s) =
            (case uploaded of
               Inl message \<Rightarrow> (Inl message, s)
             | Inr photo_url \<Rightarrow> insert_horse newHorseData photo_url r s);
          s = (case inserted of
                 Inr created \<Rightarrow>
                   s\<lparr>horses := horses s @ [created], viewMode := View_list,
                     alerts := alerts s @ [ascii ''Cavalo adicionado com sucesso!'']\<rparr>
               | Inl message \<Rightarrow>
                   s\<lparr>console_error := console_error s @
                       [[ascii ''Erro ao adicionar cavalo ou fazer upload da imagem:'', message]],
                     error := Some (failure_message message),
                     alerts := alerts s @ [failure_message message]\<rparr>)
      in s\<lparr>loading := False\<rparr>)"

text \<open>The object that \<open>handleSubmit\<close> gives to \<open>onAddHorse\<close>.\<close>

definition new_horse_data :: "unicode \<Rightarrow> form \<Rightarrow> new_horse" where
  "new_horse_data U f =
     \<lparr>new_name = capitalizeEachWord U (name_input f),
      new_breed = capitalizeEachWord U (breed_input f),
      new_age = parseInt (age_input f),
      new_sex = capitalizeEachWord U (sex_input f),
      fatherId = (if fatherId_input f = [] then JNull else JStr (fatherId_input f)),
      motherId = (if motherId_input f = [] then JNull else JStr (motherId_input f)),
      birthDate = (if birthDate_input f = [] then None else Some (birthDate_input f)),
      photoFile = selectedFile f\<rparr>"

definition empty_form :: form where
  "empty_form =
     \<lparr>name_input = [], breed_input = [], age_input = [], sex_input = [], selectedFile = None,
      previewPhoto = None, fatherId_input = [], motherId_input = [], birthDate_input = []\<rparr>"

text \<open>
  \<open>handleSubmit\<close>, with \<open>onAddHorse\<close> bound to \<open>addHorse\<close> as \<open>App\<close> binds it.  The
  handler does not wait for \<open>onAddHorse\<close>: it resets the form as soon as the call has
  been issued.  The result is the state of the form and of the application once the
  request has been answered.
\<close>

definition handleSubmit :: "unicode \<Rightarrow> responses \<Rightarrow> form \<Rightarrow> app \<Rightarrow> form \<times> app" where
  "handleSubmit U r f s =
     (if name_input f = [] \<or> breed_input f = [] \<or> age_input f = [] \<or> sex_input f = []
      then (f, s\<lparr>alerts := alerts s @ [required_fields_message]\<rparr>)
      else (empty_form, addHorse (new_horse_data U f) r s))"

subsection \<open>A failed submission, and example data\<close>

text \<open>
  \<open>add_failed s result message\<close>: what a failure with the given \<open>message\<close> leaves behind,
  where \<open>s\<close> is the state before the submission and \<open>result\<close> the form and the state
  after it.  The message is in the \<open>error\<close> state and in an alert, the view mode is
  \<open>add\<close>, the collection is as before, and the form has been reset.
\<close>

definition add_failed :: "app \<Rightarrow> form \<times> app \<Rightarrow> jsstring \<Rightarrow> bool" where
  "add_failed s result message \<longleftrightarrow>
     error (snd result) = Some (failure_message message) \<and>
     alerts (snd result) = alerts s @ [failure_message message] \<and>
     viewMode (snd result) = View_add \<and>
     horses (snd result) = horses s \<and>
     fst result = empty_form"

text \<open>
  The state in which \<open>App\<close> starts, a filled form with a photo, and answers of the
  services with which everything succeeds.
\<close>

definition initial_app :: app where
  "initial_app =
     \<lparr>horses = [], loading = True, error = None, viewMode = View_list, selectedHorseId = JNull,
      isSharedView = False, shareMessage = [], alerts = [], console_error = [], requests = []\<rparr>"

definition example_form :: form where
  "example_form =
     \<lparr>name_input = ascii ''REX'', breed_input = ascii ''puro-sangue lusitano'',
      age_input = ascii ''7'', sex_input = ascii ''Macho'',
      selectedFile = Some \<lparr>file_name = ascii ''rex.foto.jpg''\<rparr>, previewPhoto = None,
      fatherId_input = [], motherId_input = [], birthDate_input = []\<rparr>"

definition example_responses :: responses where
  "example_responses =
     \<lparr>uuid = ascii ''1b4e28ba'', upload_error = None,
      public_url_data = Some (Some (ascii ''https://cdn.example/public/1b4e28ba.jpg'')),
      insert_response = Inr (example_horse 4 ''Rex'' JNull JNull)\<rparr>"


section \<open>Sharing and the query parameters\<close>

subsection \<open>UTF-8\<close>

text \<open>
  \<open>encodeURIComponent\<close>, \<open>decodeURIComponent\<close> and \<open>URLSearchParams\<close> work on the UTF-8
  bytes of a text.  \<open>utf8\<close> gives the bytes of one code point.  \<open>utf8_value\<close> reads a
  sequence of bytes as one code point: the payload bits of the first byte, then six
  bits of each further byte; the sequence is valid when the value is a code point that
  is not a surrogate and the sequence is its encoding.
\<close>

definition is_surrogate :: "nat \<Rightarrow> bool" where
  "is_surrogate c \<longleftrightarrow> 55296 \<le> c \<and> c \<le> 57343"

definition utf8 :: "nat \<Rightarrow> nat list" where
  "utf8 c =
     (if c < 128 then [c]
      else if c < 2048 then [192 + c div 64, 128 + c mod 64]
      else if c < 65536 then [224 + c div 4096, 128 + c div 64 mod 64, 128 + c mod 64]
      else [240 + c div 262144, 128 + c div 4096 mod 64, 128 + c div 64 mod 64, 128 + c mod 64])"

text \<open>
  The number of bytes that the first byte of a sequence announces (0 when the byte
  cannot start a sequence of two to four bytes) and its payload.
\<close>

definition sequence_length :: "nat \<Rightarrow> nat" where
  "sequence_length b =
     (if 192 \<le> b \<and> b < 224 then 2 else if 224 \<le> b \<and> b < 240 then 3
      else if 240 \<le> b \<and> b < 248 then 4 else 0)"

definition lead_payload :: "nat \<Rightarrow> nat" where
  "lead_payload b = (if b < 224 then b mod 32 else if b < 240 then b mod 16 else b mod 8)"

definition utf8_value :: "nat list \<Rightarrow> nat option" where
  "utf8_value octets =
     (case octets of
        [] \<Rightarrow> None
      | b # bs \<Rightarrow>
         (let c = foldl (\<lambda>v x. v * 64 + x mod 64) (lead_payload b) bs
          in if c \<le> 1114111 \<and> \<not> is_surrogate c \<and> utf8 c = octets then Some c else None))"

text \<open>
  The decoder of the Encoding standard ("UTF-8 decode without BOM"), which
  \<open>URLSearchParams\<close> uses: a byte that cannot start a sequence, and a sequence that is
  cut short by a byte that cannot continue it or by the end of the input, each give
  U+FFFD, and decoding goes on at the byte that did not fit.  \<open>continuation\<close> is the
  longest run of at most \<open>n\<close> bytes that continue a sequence, the first of them within
  \<open>lo\<close> and \<open>hi\<close>.
\<close>

fun continuation :: "nat \<Rightarrow> nat \<Rightarrow> nat \<Rightarrow> nat list \<Rightarrow> nat list" where
  "continuation (Suc n) lo hi (b # bs) =
     (if lo \<le> b \<and> b \<le> hi then b # continuation n 128 191 bs else [])"
| "continuation n lo hi bs = []"

function utf8_decode :: "nat list \<Rightarrow> jsstring" where
  "utf8_decode [] = []"
| "utf8_decode (b # bs) =
     (if b < 128 then b # utf8_decode bs
      else if b < 194 \<or> 244 < b then 65533 # utf8_decode bs
      else
        (let n = sequence_length b - 1;
             lo = (if b = 224 then 160 else if b = 240 then 144 else 128);
             hi = (if b = 237 then 159 else if b = 244 then 143 else 191);
             cs = continuation n lo hi bs
         in (if length cs = n
             then foldl (\<lambda>v x. v * 64 + x mod 64) (lead_payload b) cs
             else 65533) # utf8_decode (drop (length cs) bs)))"
  by pat_completeness auto
termination
  by (relation "measure length") auto

subsection \<open>encodeURIComponent and decodeURIComponent\<close>

text \<open>
  The characters that \<open>encodeURIComponent\<close> keeps: letters, digits and
  \<open>- _ . ! ~ * ' ( )\<close>.  Every other code point is written as the escapes \<open>%XX\<close> of its
  UTF-8 bytes, with upper-case hexadecimal digits; a lone surrogate raises \<open>URIError\<close>
  (\<open>None\<close>).
\<close>

definition unreserved :: "nat \<Rightarrow> bool" where
  "unreserved c \<longleftrightarrow>
     (65 \<le> c \<and> c \<le> 90) \<or> (97 \<le> c \<and> c \<le> 122) \<or> (48 \<le> c \<and> c \<le> 57) \<or>
     c \<in> {45, 95, 46, 33, 126, 42, 39, 40, 41}"

definition hex_digit :: "nat \<Rightarrow> nat" where
  "hex_digit d = (if d < 10 then 48 + d else 55 + d)"

definition escape :: "nat \<Rightarrow> jsstring" where
  "escape b = [37, hex_digit (b div 16), hex_digit (b mod 16)]"

definition encodeURIComponent :: "jsstring \<Rightarrow> jsstring option" where
  "encodeURIComponent s =
     (if \<exists>c \<in> set s. is_surrogate c then None
      else Some (concat (map (\<lambda>c. if unreserved c then [c] else concat (map escape (utf8 c))) s)))"

text \<open>
  \<open>decodeURIComponent\<close> in two passes.  \<open>unescape\<close> reads the text as characters and
  escapes \<open>%XX\<close>; a \<open>%\<close> without two hexadecimal digits behind it raises \<open>URIError\<close>.
  \<open>assemble\<close> puts the bytes of the escapes together: a byte below 128 is a character,
  any other byte must start a sequence of two to four bytes whose further bytes are the
  escapes that follow, and the sequence must be valid UTF-8.
\<close>

datatype unit_or_byte = Unit nat | Byte nat

definition hex_value :: "nat \<Rightarrow> nat option" where
  "hex_value c =
     (if 48 \<le> c \<and> c \<le> 57 then Some (c - 48)
      else if 97 \<le> c \<and> c \<le> 102 then Some (c - 87)
      else if 65 \<le> c \<and> c \<le> 70 then Some (c - 55)
      else None)"

fun unescape :: "jsstring \<Rightarrow> unit_or_byte list option" where
  "unescape [] = Some []"
| "unescape (c # s) =
     (if c \<noteq> 37 then map_option ((#) (Unit c)) (unescape s)
      else (case s of
              a # b # r \<Rightarrow>
                (case (hex_value a, hex_value b) of
                   (Some x, Some y) \<Rightarrow> map_option ((#) (Byte (16 * x + y))) (unescape r)
                 | _ \<Rightarrow> None)
            | _ \<Rightarrow> None))"

fun the_byte :: "unit_or_byte \<Rightarrow> nat option" where
  "the_byte (Byte b) = Some b"
| "the_byte (Unit c) = None"

function assemble :: "unit_or_byte list \<Rightarrow> jsstring option" where
  "assemble [] = Some []"
| "assemble (Unit c # ts) = map_option ((#) c) (assemble ts)"
| "assemble (Byte b # ts) =
     (if b < 128 then map_option ((#) b) (assemble ts)
      else
        (let n = sequence_length b
         in if n = 0 \<or> length ts < n - 1 \<or> None \<in> set (map the_byte (take (n - 1) ts))
            then None
            else (case utf8_value (b # map (\<lambda>t. case the_byte t of Some x \<Rightarrow> x | None \<Rightarrow> 0)
                          (take (n - 1) ts)) of
                    None \<Rightarrow> None
                  | Some c \<Rightarrow> map_option ((#) c) (assemble (drop (n - 1) ts)))))"
  by pat_completeness auto
termination
  by (relation "measure length") auto

definition decodeURIComponent :: "jsstring \<Rightarrow> jsstring option" where
  "decodeURIComponent s = (case unescape s of None \<Rightarrow> None | Some ts \<Rightarrow> assemble ts)"

subsection \<open>URLSearchParams\<close>

text \<open>
  \<open>new URLSearchParams(string)\<close>: a leading \<open>?\<close> is dropped, the UTF-8 bytes of the
  text are cut at every \<open>&\<close>, each piece that is not empty is cut at its first \<open>=\<close> into
  a name and a value, in both \<open>+\<close> becomes a space and the escapes \<open>%XX\<close> become bytes
  (a \<open>%\<close> without two hexadecimal digits stays), and the bytes are decoded.  \<open>get\<close>
  returns the value of the first pair with the name, or \<open>null\<close> (\<open>None\<close>).
\<close>

fun split_on :: "nat \<Rightarrow> nat list \<Rightarrow> nat list list" where
  "split_on d [] = [[]]"
| "split_on d (c # s) =
     (if c = d then [] # split_on d s
      else (case split_on d s of [] \<Rightarrow> [[c]] | p # ps \<Rightarrow> (c # p) # ps))"

fun percent_decode :: "nat list \<Rightarrow> nat list" where
  "percent_decode (c # a # b # s) =
     (case (if c = 37 then hex_value a else None, hex_value b) of
        (Some x, Some y) \<Rightarrow> (16 * x + y) # percent_decode s
      | _ \<Rightarrow> c # percent_decode (a # b # s))"
| "percent_decode s = s"

definition urlencoded_text :: "nat list \<Rightarrow> jsstring" where
  "urlencoded_text bytes = utf8_decode (percent_decode (map (\<lambda>b. if b = 43 then 32 else b) bytes))"

definition URLSearchParams :: "jsstring \<Rightarrow> (jsstring \<times> jsstring) list" where
  "URLSearchParams init =
     (let input = (case init of [] \<Rightarrow> [] | c # r \<Rightarrow> if c = 63 then r else init);
          bytes = concat (map (\<lambda>c. utf8 (if is_surrogate c then 65533 else c)) input)
      in map (\<lambda>p. (urlencoded_text (takeWhile (\<lambda>b. b \<noteq> 61) p),
                    urlencoded_text (drop 1 (dropWhile (\<lambda>b. b \<noteq> 61) p))))
           (filter (\<lambda>p. p \<noteq> []) (split_on 38 bytes)))"

definition get :: "(jsstring \<times> jsstring) list \<Rightarrow> jsstring \<Rightarrow> jsstring option" where
  "get params n = map_of params n"

subsection \<open>handleShareClick and the effect at the start\<close>

text \<open>
  The conversion of a value to a string that \<open>encodeURIComponent\<close> applies to its
  argument: the text \<open>null\<close>, the decimal digits of a number, or the string itself.
\<close>

function decimal :: "nat \<Rightarrow> jsstring" where
  "decimal n = (if n < 10 then [48 + n] else decimal (n div 10) @ [48 + n mod 10])"
  by pat_completeness auto
termination
  by (relation "measure id") auto

declare decimal.simps [simp del]

fun to_string :: "jsval \<Rightarrow> jsstring" where
  "to_string JNull = ascii ''null''"
| "to_string (JNum n) = (if n < 0 then 45 # decimal (nat (- n)) else decimal (nat n))"
| "to_string (JStr s) = s"

text \<open>
  The \<open>shareUrl\<close> of \<open>handleShareClick\<close>, for the page's \<open>window.location.origin\<close>; the
  handler goes on to copy it to the clipboard.
\<close>

definition shareUrl :: "jsstring \<Rightarrow> horse \<Rightarrow> jsstring option" where
  "shareUrl origin horse =
     map_option (\<lambda>encoded. origin @ ascii ''/?id='' @ encoded @ ascii ''&shared=true'')
       (encodeURIComponent (to_string (horse_id horse)))"

text \<open>
  The effect that \<open>App\<close> runs once at the start, from the reading of
  \<open>window.location.search\<close> on (the call of \<open>fetchHorses\<close> before it concerns \<open>horses\<close>,
  \<open>loading\<close> and \<open>error\<close> only).  The result is \<open>None\<close> when \<open>decodeURIComponent\<close> raises
  \<open>URIError\<close>.
\<close>

definition startup_effect :: "jsstring \<Rightarrow> app \<Rightarrow> app option" where
  "startup_effect search s =
     (let params = URLSearchParams search;
          horseIdParam = get params (ascii ''id'');
          sharedParam = get params (ascii ''shared'')
      in case horseIdParam of
           Some v \<Rightarrow>
             if v \<noteq> [] then
               (case decodeURIComponent v of
                  None \<Rightarrow> None
                | Some decoded \<Rightarrow>
                    Some (s\<lparr>selectedHorseId := JStr decoded, viewMode := View_details,
                      isSharedView := (if sharedParam = Some (ascii ''true'') then True
                                       else isSharedView s)\<rparr>))
             else Some (s\<lparr>viewMode := View_list, isSharedView := False\<rparr>)
         | None \<Rightarrow> Some (s\<lparr>viewMode := View_list, isSharedView := False\<rparr>))"


section \<open>Properties of buildD3AncestryData\<close>

lemma filter_non_null_Some: "filter_non_null (map (\<lambda>p. Some (g p)) ps) = map g ps"
  by (induction ps) simp_all

lemma parents_of_alt:
  "parents_of allHorses h =
     (case (if truthy (pai_id h) then find (\<lambda>x. horse_id x = pai_id h) allHorses else None) of
        None \<Rightarrow> [] | Some f \<Rightarrow> [f]) @
     (case (if truthy (mae_id h) then find (\<lambda>x. horse_id x = mae_id h) allHorses else None) of
        None \<Rightarrow> [] | Some m \<Rightarrow> [m])"
  by (simp add: parents_of_def)

lemma build_unfold:
  assumes "currentDepth < maxDepth - 1"
  shows "buildD3AncestryData (Some h) allHorses maxDepth currentDepth =
    Some (TreeNode (horse_id h) (nome h) (raca h) (idade h) (sexo h) (url_imagem h)
      (filter_non_null (map (\<lambda>p. buildD3AncestryData (Some p) allHorses maxDepth (currentDepth + 1))
         (parents_of allHorses h))))"
proof -
  define father where
    "father = (if truthy (pai_id h) then find (\<lambda>x. horse_id x = pai_id h) allHorses else None)"
  define mother where
    "mother = (if truthy (mae_id h) then find (\<lambda>x. horse_id x = mae_id h) allHorses else None)"
  have p: "parents_of allHorses h =
      (case father of None \<Rightarrow> [] | Some f \<Rightarrow> [f]) @ (case mother of None \<Rightarrow> [] | Some m \<Rightarrow> [m])"
    unfolding father_def mother_def by (rule parents_of_alt)
  have "buildD3AncestryData (Some h) allHorses maxDepth currentDepth =
    Some (TreeNode (horse_id h) (nome h) (raca h) (idade h) (sexo h) (url_imagem h)
      (filter_non_null
        ((if father \<noteq> None
          then [buildD3AncestryData father allHorses maxDepth (currentDepth + 1)] else []) @
         (if mother \<noteq> None
          then [buildD3AncestryData mother allHorses maxDepth (currentDepth + 1)] else []))))"
    using assms
    by (subst buildD3AncestryData.simps) (simp add: Let_def father_def mother_def)
  then show ?thesis
    unfolding p by (cases father; cases mother) simp_all
qed

lemma build_ancestry:
  "maxDepth = currentDepth + int (Suc n) \<Longrightarrow>
   buildD3AncestryData (Some h) allHorses maxDepth currentDepth = Some (ancestry allHorses (Suc n) h)"
proof (induction n arbitrary: currentDepth h)
  case 0
  then show ?case by (subst buildD3AncestryData.simps) simp
next
  case (Suc n)
  have IH: "\<And>p. buildD3AncestryData (Some p) allHorses maxDepth (currentDepth + 1)
      = Some (ancestry allHorses (Suc n) p)"
    using Suc.prems by (intro Suc.IH) simp
  have "currentDepth < maxDepth - 1"
    using Suc.prems by simp
  then show ?case
    by (simp add: build_unfold IH filter_non_null_Some)
qed


lemma foldr_max_ge: "x \<in> set xs \<Longrightarrow> x \<le> foldr max xs (0::nat)"
  by (induction xs) auto

lemma foldr_max_le: "(\<And>x. x \<in> set xs \<Longrightarrow> x \<le> k) \<Longrightarrow> foldr max xs (0::nat) \<le> k"
  by (induction xs) auto

lemma foldr_max_mem: "xs \<noteq> [] \<Longrightarrow> foldr max xs (0::nat) \<in> set xs"
proof (induction xs)
  case Nil
  then show ?case by simp
next
  case (Cons x xs)
  then show ?case by (cases xs) (auto simp: max_def)
qed

lemma height_ancestry_le: "height (ancestry allHorses (Suc n) h) \<le> Suc n"
proof (induction n arbitrary: h)
  case 0
  show ?case by simp
next
  case (Suc n)
  have "foldr max (map height (map (ancestry allHorses (Suc n)) (parents_of allHorses h))) 0 \<le> Suc n"
    by (rule foldr_max_le) (use Suc.IH in auto)
  then show ?case by simp
qed

lemma lineage_attained:
  "\<exists>p. lineage allHorses (h # p) \<and> Suc (length p) = height (ancestry allHorses (Suc n) h)"
proof (induction n arbitrary: h)
  case 0
  have "lineage allHorses [h] \<and> Suc (length ([]::horse list)) = height (ancestry allHorses (Suc 0) h)"
    by simp
  then show ?case by blast
next
  case (Suc n)
  let ?hs = "map height (map (ancestry allHorses (Suc n)) (parents_of allHorses h))"
  show ?case
  proof (cases "parents_of allHorses h = []")
    case True
    then have "lineage allHorses [h] \<and>
        Suc (length ([]::horse list)) = height (ancestry allHorses (Suc (Suc n)) h)"
      by simp
    then show ?thesis by blast
  next
    case False
    then have "foldr max ?hs 0 \<in> set ?hs"
      by (intro foldr_max_mem) simp
    then obtain q where q: "q \<in> set (parents_of allHorses h)"
        "height (ancestry allHorses (Suc n) q) = foldr max ?hs 0"
      by auto
    from Suc.IH[of q] obtain p where p: "lineage allHorses (q # p)"
        "Suc (length p) = height (ancestry allHorses (Suc n) q)"
      by blast
    have "lineage allHorses (h # q # p) \<and>
        Suc (length (q # p)) = height (ancestry allHorses (Suc (Suc n)) h)"
      using q p by simp
    then show ?thesis by blast
  qed
qed

lemma lineage_bound:
  "lineage allHorses (h # p) \<Longrightarrow>
   min (Suc n) (Suc (length p)) \<le> height (ancestry allHorses (Suc n) h)"
proof (induction n arbitrary: h p)
  case 0
  show ?case by simp
next
  case (Suc n)
  show ?case
  proof (cases p)
    case Nil
    then show ?thesis by simp
  next
    case (Cons q p')
    with Suc.prems have q: "q \<in> set (parents_of allHorses h)" and l: "lineage allHorses (q # p')"
      by simp_all
    have "min (Suc n) (Suc (length p')) \<le> height (ancestry allHorses (Suc n) q)"
      using l by (rule Suc.IH)
    also have "\<dots> \<le> foldr max (map height (map (ancestry allHorses (Suc n)) (parents_of allHorses h))) 0"
      using q by (intro foldr_max_ge) simp
    finally show ?thesis
      using Cons by simp
  qed
qed

lemma nodes_at_ancestry:
  "x \<in> set (nodes_at k (ancestry allHorses (Suc (k + m)) h)) \<Longrightarrow>
   \<exists>h'. x = ancestry allHorses (Suc m) h'"
proof (induction k arbitrary: h)
  case 0
  then show ?case by auto
next
  case (Suc k)
  have "children (ancestry allHorses (Suc (Suc k + m)) h) =
      map (ancestry allHorses (Suc (k + m))) (parents_of allHorses h)"
    by simp
  with Suc.prems obtain q where "x \<in> set (nodes_at k (ancestry allHorses (Suc (k + m)) q))"
    by (auto simp del: ancestry.simps)
  then show ?case by (rule Suc.IH)
qed

lemma length_parents_of: "length (parents_of allHorses h) \<le> 2"
  by (simp add: parents_of_def split: option.splits)

lemma sum_list_bound: "(\<And>x. x \<in> set xs \<Longrightarrow> f x \<le> (k::nat)) \<Longrightarrow> sum_list (map f xs) \<le> length xs * k"
  by (induction xs) (auto simp: add_mono)

lemma node_count_ancestry: "Suc (node_count (ancestry allHorses (Suc n) h)) \<le> 2 ^ Suc n"
proof (induction n arbitrary: h)
  case 0
  show ?case by simp
next
  case (Suc n)
  let ?ps = "parents_of allHorses h"
  define S where "S = sum_list (map (\<lambda>p. node_count (ancestry allHorses (Suc n) p)) ?ps)"
  have nc: "node_count (ancestry allHorses (Suc (Suc n)) h) = Suc S"
    unfolding S_def by (subst ancestry.simps) (simp add: comp_def del: ancestry.simps)
  have "S \<le> length ?ps * (2 ^ Suc n - 1)"
    unfolding S_def
  proof (rule sum_list_bound)
    fix p
    show "node_count (ancestry allHorses (Suc n) p) \<le> 2 ^ Suc n - 1"
      using Suc.IH[of p] by linarith
  qed
  also have "\<dots> \<le> 2 * (2 ^ Suc n - 1)"
    using length_parents_of[of allHorses h] by simp
  finally have "S \<le> 2 * (2 ^ Suc n - 1)" .
  moreover have "(1::nat) \<le> 2 ^ Suc n"
    by simp
  ultimately have "Suc (Suc S) \<le> 2 * 2 ^ Suc n"
    by linarith
  then show ?case
    by (simp only: nc power_Suc)
qed

lemma scenario_tree:
  "buildD3AncestryData (Some (example_horse 3 ''C'' (JNum 1) (JNum 2))) scenario 3 0 =
   Some (TreeNode (JNum 3) (ascii ''C'') (ascii ''Lusitano'') 7 (ascii ''Macho'') None
     [TreeNode (JNum 1) (ascii ''A'') (ascii ''Lusitano'') 7 (ascii ''Macho'') None [],
      TreeNode (JNum 2) (ascii ''B'') (ascii ''Lusitano'') 7 (ascii ''Macho'') None []])"
  by (simp add: buildD3AncestryData.simps scenario_def example_horse_def)

lemma cyclic_tree:
  "buildD3AncestryData (Some (example_horse 3 ''C'' (JNum 1) (JNum 2))) cyclic 3 0 =
   Some (TreeNode (JNum 3) (ascii ''C'') (ascii ''Lusitano'') 7 (ascii ''Macho'') None
     [TreeNode (JNum 1) (ascii ''A'') (ascii ''Lusitano'') 7 (ascii ''Macho'') None
        [TreeNode (JNum 2) (ascii ''B'') (ascii ''Lusitano'') 7 (ascii ''Macho'') None []],
      TreeNode (JNum 2) (ascii ''B'') (ascii ''Lusitano'') 7 (ascii ''Macho'') None
        [TreeNode (JNum 1) (ascii ''A'') (ascii ''Lusitano'') 7 (ascii ''Macho'') None []]])"
  by (simp add: buildD3AncestryData.simps cyclic_def example_horse_def)

lemma cyclic_lineage:
  "lineage cyclic [example_horse 3 ''C'' (JNum 1) (JNum 2), example_horse 1 ''A'' JNull (JNum 2),
     example_horse 2 ''B'' (JNum 1) JNull, example_horse 1 ''A'' JNull (JNum 2),
     example_horse 2 ''B'' (JNum 1) JNull]"
  by (simp add: cyclic_def parents_of_def example_horse_def)

subsection \<open>The claims about the ancestry tree\<close>

text \<open>
  Claim C1.  For every collection, every root row and every depth \<open>d \<ge> 1\<close>,
  \<open>buildD3AncestryData\<close> returns a tree whose longest root-to-leaf path has exactly
  \<open>min(d, longest available ancestor chain)\<close> nodes: the height is at most \<open>d\<close>, it is
  the length of some ancestor chain that starts at the root, and every such chain, cut
  at \<open>d\<close>, is at most as long.  No node at depth \<open>d - 1\<close> (the root has depth 0) has
  children.
\<close>

theorem materialize_depth:
  assumes "1 \<le> d"
  shows "\<exists>t. buildD3AncestryData (Some root) allHorses d 0 = Some t \<and>
           height t \<le> nat d \<and>
           (\<exists>p. lineage allHorses (root # p) \<and> length (root # p) = height t) \<and>
           (\<forall>p. lineage allHorses (root # p) \<longrightarrow> min (nat d) (length (root # p)) \<le> height t) \<and>
           (\<forall>x \<in> set (nodes_at (nat d - 1) t). children x = [])"
proof -
  define n where "n = nat (d - 1)"
  have n: "d = 0 + int (Suc n)" and nd: "nat d = Suc n"
    using assms by (simp_all add: n_def)
  let ?t = "ancestry allHorses (Suc n) root"
  have b: "buildD3AncestryData (Some root) allHorses d 0 = Some ?t"
    using n by (rule build_ancestry)
  have leaf: "\<forall>x \<in> set (nodes_at n ?t). children x = []"
  proof
    fix x assume "x \<in> set (nodes_at n ?t)"
    then obtain h' where "x = ancestry allHorses (Suc 0) h'"
      using nodes_at_ancestry[of x n allHorses 0 root] by auto
    then show "children x = []" by simp
  qed
  have "height ?t \<le> Suc n"
    by (rule height_ancestry_le)
  moreover have "\<exists>p. lineage allHorses (root # p) \<and> length (root # p) = height ?t"
    using lineage_attained[of allHorses root n] by simp
  moreover have "\<forall>p. lineage allHorses (root # p) \<longrightarrow> min (Suc n) (length (root # p)) \<le> height ?t"
    using lineage_bound[of allHorses root _ n] by simp
  ultimately show ?thesis
    using b leaf nd by (simp del: ancestry.simps)
qed

theorem materialize_depth_witness:
  "(1::int) \<le> 3 \<and>
   lineage cyclic [example_horse 3 ''C'' (JNum 1) (JNum 2), example_horse 1 ''A'' JNull (JNum 2),
     example_horse 2 ''B'' (JNum 1) JNull, example_horse 1 ''A'' JNull (JNum 2),
     example_horse 2 ''B'' (JNum 1) JNull] \<and>
   (\<exists>t. buildD3AncestryData (Some (example_horse 3 ''C'' (JNum 1) (JNum 2))) cyclic 3 0 = Some t \<and>
      height t = 3 \<and>
      map name (nodes_at (nat 3 - 1) t) = [ascii ''B'', ascii ''A''] \<and>
      (\<forall>x \<in> set (nodes_at (nat 3 - 1) t). children x = []))"
proof -
  have d: "(1::int) \<le> 3" by simp
  have two: "nat 3 - 1 = Suc (Suc 0)" by simp
  from materialize_depth[OF d, of "example_horse 3 ''C'' (JNum 1) (JNum 2)" cyclic]
  obtain t where t: "buildD3AncestryData (Some (example_horse 3 ''C'' (JNum 1) (JNum 2))) cyclic 3 0 = Some t"
    and leaf: "\<forall>x \<in> set (nodes_at (nat 3 - 1) t). children x = []"
    by blast
  from t have "height t = 3" and "map name (nodes_at (nat 3 - 1) t) = [ascii ''B'', ascii ''A'']"
    unfolding cyclic_tree two by auto
  with t leaf
  have "buildD3AncestryData (Some (example_horse 3 ''C'' (JNum 1) (JNum 2))) cyclic 3 0 = Some t \<and>
      height t = 3 \<and>
      map name (nodes_at (nat 3 - 1) t) = [ascii ''B'', ascii ''A''] \<and>
      (\<forall>x \<in> set (nodes_at (nat 3 - 1) t). children x = [])"
    by (intro conjI)
  then have "\<exists>t. buildD3AncestryData (Some (example_horse 3 ''C'' (JNum 1) (JNum 2))) cyclic 3 0 = Some t \<and>
      height t = 3 \<and>
      map name (nodes_at (nat 3 - 1) t) = [ascii ''B'', ascii ''A''] \<and>
      (\<forall>x \<in> set (nodes_at (nat 3 - 1) t). children x = [])"
    by (rule exI)
  with d cyclic_lineage show ?thesis
    by (intro conjI)
qed

text \<open>
  Claim C2.  On every collection, whether or not its parent references form cycles,
  \<open>buildD3AncestryData\<close> returns: the function is total (its termination is proved
  from the depth counter, which grows by one in every recursive call), the result is
  \<open>null\<close> without a root or for \<open>maxDepth \<le> 0\<close>, and for \<open>maxDepth = d \<ge> 1\<close> it is a
  finite tree of height at most \<open>d\<close> with fewer than \<open>2^d\<close> nodes.
\<close>

theorem materialize_terminates:
  "buildD3AncestryData None allHorses d 0 = None \<and>
   (d \<le> 0 \<longrightarrow> buildD3AncestryData (Some root) allHorses d 0 = None) \<and>
   (1 \<le> d \<longrightarrow>
     (\<exists>t. buildD3AncestryData (Some root) allHorses d 0 = Some t \<and>
        height t \<le> nat d \<and> node_count t < 2 ^ nat d))"
proof (intro conjI impI)
  show "buildD3AncestryData None allHorses d 0 = None"
    by (subst buildD3AncestryData.simps) simp
next
  assume "d \<le> 0"
  then show "buildD3AncestryData (Some root) allHorses d 0 = None"
    by (subst buildD3AncestryData.simps) simp
next
  assume d: "1 \<le> d"
  define n where "n = nat (d - 1)"
  have n: "d = 0 + int (Suc n)" and nd: "nat d = Suc n"
    using d by (simp_all add: n_def)
  have "buildD3AncestryData (Some root) allHorses d 0 = Some (ancestry allHorses (Suc n) root)"
    using n by (rule build_ancestry)
  moreover have "height (ancestry allHorses (Suc n) root) \<le> Suc n"
    by (rule height_ancestry_le)
  moreover have "node_count (ancestry allHorses (Suc n) root) < 2 ^ Suc n"
    using node_count_ancestry[of allHorses n root] by linarith
  ultimately show "\<exists>t. buildD3AncestryData (Some root) allHorses d 0 = Some t \<and>
        height t \<le> nat d \<and> node_count t < 2 ^ nat d"
    unfolding nd by blast
qed

theorem materialize_terminates_witness:
  "lineage cyclic [example_horse 3 ''C'' (JNum 1) (JNum 2), example_horse 1 ''A'' JNull (JNum 2),
     example_horse 2 ''B'' (JNum 1) JNull, example_horse 1 ''A'' JNull (JNum 2),
     example_horse 2 ''B'' (JNum 1) JNull] \<and>
   (0::int) \<le> 0 \<and>
   buildD3AncestryData (Some (example_horse 3 ''C'' (JNum 1) (JNum 2))) cyclic 0 0 = None \<and>
   (1::int) \<le> 3 \<and>
   (\<exists>t. buildD3AncestryData (Some (example_horse 3 ''C'' (JNum 1) (JNum 2))) cyclic 3 0 = Some t \<and>
      height t \<le> 3 \<and> node_count t < 8)"
  using materialize_terminates[of cyclic 3 "example_horse 3 ''C'' (JNum 1) (JNum 2)"]
    materialize_terminates[of cyclic 0 "example_horse 3 ''C'' (JNum 1) (JNum 2)"] cyclic_lineage
  by simp

text \<open>
  Claim C3.  \<open>buildD3AncestryData\<close> returns \<open>null\<close> when the root is absent or
  \<open>maxDepth\<close> is 0 (or less); for \<open>maxDepth \<ge> 1\<close> it returns a node that carries the
  id, name, breed, age, sex and photo URL of the root and a list of at most two
  children; for a root without registered parents this list is empty.
\<close>

theorem materialize_root:
  "buildD3AncestryData None allHorses maxDepth 0 = None \<and>
   (maxDepth \<le> 0 \<longrightarrow> buildD3AncestryData horse allHorses maxDepth 0 = None) \<and>
   (1 \<le> maxDepth \<longrightarrow>
     (\<exists>cs. buildD3AncestryData (Some h) allHorses maxDepth 0 =
         Some (TreeNode (horse_id h) (nome h) (raca h) (idade h) (sexo h) (url_imagem h) cs) \<and>
       length cs \<le> 2)) \<and>
   (1 \<le> maxDepth \<and> pai_id h = JNull \<and> mae_id h = JNull \<longrightarrow>
     buildD3AncestryData (Some h) allHorses maxDepth 0 =
       Some (TreeNode (horse_id h) (nome h) (raca h) (idade h) (sexo h) (url_imagem h) []))"
proof (intro conjI impI)
  show "buildD3AncestryData None allHorses maxDepth 0 = None"
    by (subst buildD3AncestryData.simps) simp
next
  assume "maxDepth \<le> 0"
  then show "buildD3AncestryData horse allHorses maxDepth 0 = None"
    by (subst buildD3AncestryData.simps) (simp split: option.splits)
next
  assume d: "1 \<le> maxDepth"
  define n where "n = nat (maxDepth - 1)"
  have n: "maxDepth = 0 + int (Suc n)"
    using d by (simp add: n_def)
  have "buildD3AncestryData (Some h) allHorses maxDepth 0 = Some (ancestry allHorses (Suc n) h)"
    using n by (rule build_ancestry)
  moreover have "length (children (ancestry allHorses (Suc n) h)) \<le> 2"
    using length_parents_of[of allHorses h] by simp
  ultimately show "\<exists>cs. buildD3AncestryData (Some h) allHorses maxDepth 0 =
         Some (TreeNode (horse_id h) (nome h) (raca h) (idade h) (sexo h) (url_imagem h) cs) \<and>
       length cs \<le> 2"
    by simp
next
  assume a: "1 \<le> maxDepth \<and> pai_id h = JNull \<and> mae_id h = JNull"
  define n where "n = nat (maxDepth - 1)"
  have n: "maxDepth = 0 + int (Suc n)"
    using a by (simp add: n_def)
  have "buildD3AncestryData (Some h) allHorses maxDepth 0 = Some (ancestry allHorses (Suc n) h)"
    using n by (rule build_ancestry)
  moreover have "parents_of allHorses h = []"
    using a by (simp add: parents_of_def)
  ultimately show "buildD3AncestryData (Some h) allHorses maxDepth 0 =
       Some (TreeNode (horse_id h) (nome h) (raca h) (idade h) (sexo h) (url_imagem h) [])"
    by simp
qed

theorem materialize_root_witness:
  "(0::int) \<le> 0 \<and>
   buildD3AncestryData (Some (example_horse 1 ''A'' JNull JNull)) scenario 0 0 = None \<and>
   (1::int) \<le> 5 \<and> pai_id (example_horse 1 ''A'' JNull JNull) = JNull \<and>
   mae_id (example_horse 1 ''A'' JNull JNull) = JNull \<and>
   buildD3AncestryData (Some (example_horse 1 ''A'' JNull JNull)) scenario 5 0 =
     Some (TreeNode (JNum 1) (ascii ''A'') (ascii ''Lusitano'') 7 (ascii ''Macho'') None [])"
  using materialize_root[of scenario 5 None "example_horse 1 ''A'' JNull JNull"]
    materialize_root[of scenario 0 "Some (example_horse 1 ''A'' JNull JNull)" "example_horse 1 ''A'' JNull JNull"]
  by (simp add: example_horse_def)

text \<open>
  Claim C4.  At a level that is not the last one (\<open>currentDepth < maxDepth - 1\<close>) the
  father and then the mother are looked up by id, each as the first row of \<open>allHorses\<close>
  with that id.  When both resolve, the children are the father's subtree followed by
  the mother's subtree.  A reference that is absent or that no row carries adds no
  child: the list is shorter by one, and holds neither a placeholder nor an error.
\<close>

theorem children_order:
  assumes "currentDepth < maxDepth - 1"
  shows "\<exists>t. buildD3AncestryData (Some h) allHorses maxDepth currentDepth = Some t \<and>
    (truthy (pai_id h) \<and> find (\<lambda>x. horse_id x = pai_id h) allHorses = Some f \<and>
        truthy (mae_id h) \<and> find (\<lambda>x. horse_id x = mae_id h) allHorses = Some m \<longrightarrow>
      (\<exists>tf tm. buildD3AncestryData (Some f) allHorses maxDepth (currentDepth + 1) = Some tf \<and>
         buildD3AncestryData (Some m) allHorses maxDepth (currentDepth + 1) = Some tm \<and>
         children t = [tf, tm])) \<and>
    ((\<not> truthy (pai_id h) \<or> find (\<lambda>x. horse_id x = pai_id h) allHorses = None) \<and>
        truthy (mae_id h) \<and> find (\<lambda>x. horse_id x = mae_id h) allHorses = Some m \<longrightarrow>
      (\<exists>tm. buildD3AncestryData (Some m) allHorses maxDepth (currentDepth + 1) = Some tm \<and>
         children t = [tm])) \<and>
    (truthy (pai_id h) \<and> find (\<lambda>x. horse_id x = pai_id h) allHorses = Some f \<and>
        (\<not> truthy (mae_id h) \<or> find (\<lambda>x. horse_id x = mae_id h) allHorses = None) \<longrightarrow>
      (\<exists>tf. buildD3AncestryData (Some f) allHorses maxDepth (currentDepth + 1) = Some tf \<and>
         children t = [tf])) \<and>
    ((\<not> truthy (pai_id h) \<or> find (\<lambda>x. horse_id x = pai_id h) allHorses = None) \<and>
     (\<not> truthy (mae_id h) \<or> find (\<lambda>x. horse_id x = mae_id h) allHorses = None) \<longrightarrow>
      children t = [])"
proof -
  define n where "n = nat (maxDepth - currentDepth - 2)"
  have n: "maxDepth = (currentDepth + 1) + int (Suc n)"
    using assms by (simp add: n_def)
  have sub: "\<And>p. buildD3AncestryData (Some p) allHorses maxDepth (currentDepth + 1) =
      Some (ancestry allHorses (Suc n) p)"
    using n by (rule build_ancestry)
  have "buildD3AncestryData (Some h) allHorses maxDepth currentDepth =
    Some (TreeNode (horse_id h) (nome h) (raca h) (idade h) (sexo h) (url_imagem h)
      (map (ancestry allHorses (Suc n)) (parents_of allHorses h)))"
    using assms by (simp add: build_unfold sub filter_non_null_Some del: ancestry.simps)
  then show ?thesis
    by (auto simp: sub parents_of_def simp del: ancestry.simps)
qed

theorem children_order_witness:
  "(0::int) < 3 - 1 \<and>
   (\<exists>t. buildD3AncestryData (Some (example_horse 3 ''C'' (JNum 1) (JNum 2))) scenario 3 0 = Some t \<and>
      map node_id (children t) = [JNum 1, JNum 2]) \<and>
   find (\<lambda>x. horse_id x = JNum 99) dangling = None \<and>
   (\<exists>t. buildD3AncestryData (Some (example_horse 3 ''C'' (JNum 99) (JNum 2))) dangling 3 0 = Some t \<and>
      map node_id (children t) = [JNum 2]) \<and>
   (\<exists>t. buildD3AncestryData (Some (example_horse 5 ''E'' (JNum 1) JNull)) scenario 3 0 = Some t \<and>
      map node_id (children t) = [JNum 1]) \<and>
   (\<exists>t. buildD3AncestryData (Some (example_horse 1 ''A'' JNull JNull)) scenario 3 0 = Some t \<and>
      children t = [])"
proof -
  let ?A = "example_horse 1 ''A'' JNull JNull" and ?B = "example_horse 2 ''B'' JNull JNull"
  let ?C = "example_horse 3 ''C'' (JNum 1) (JNum 2)" and ?D = "example_horse 3 ''C'' (JNum 99) (JNum 2)"
  let ?E = "example_horse 5 ''E'' (JNum 1) JNull"
  have d: "(0::int) < 3 - 1" by simp
  have both: "truthy (pai_id ?C) \<and> find (\<lambda>x. horse_id x = pai_id ?C) scenario = Some ?A \<and>
      truthy (mae_id ?C) \<and> find (\<lambda>x. horse_id x = mae_id ?C) scenario = Some ?B"
    by (simp add: scenario_def example_horse_def)
  have none: "find (\<lambda>x. horse_id x = JNum 99) dangling = None"
    by (simp add: dangling_def example_horse_def)
  have mother_only: "(\<not> truthy (pai_id ?D) \<or> find (\<lambda>x. horse_id x = pai_id ?D) dangling = None) \<and>
      truthy (mae_id ?D) \<and> find (\<lambda>x. horse_id x = mae_id ?D) dangling = Some ?B"
    by (simp add: dangling_def example_horse_def)
  have father_only: "truthy (pai_id ?E) \<and> find (\<lambda>x. horse_id x = pai_id ?E) scenario = Some ?A \<and>
      (\<not> truthy (mae_id ?E) \<or> find (\<lambda>x. horse_id x = mae_id ?E) scenario = None)"
    by (simp add: scenario_def example_horse_def)
  have neither: "(\<not> truthy (pai_id ?A) \<or> find (\<lambda>x. horse_id x = pai_id ?A) scenario = None) \<and>
      (\<not> truthy (mae_id ?A) \<or> find (\<lambda>x. horse_id x = mae_id ?A) scenario = None)"
    by (simp add: example_horse_def)
  have s: "\<And>H. buildD3AncestryData (Some ?A) H 3 (0 + 1) =
      Some (TreeNode (JNum 1) (ascii ''A'') (ascii ''Lusitano'') 7 (ascii ''Macho'') None [])"
    "\<And>H. buildD3AncestryData (Some ?B) H 3 (0 + 1) =
      Some (TreeNode (JNum 2) (ascii ''B'') (ascii ''Lusitano'') 7 (ascii ''Macho'') None [])"
    by (simp_all add: buildD3AncestryData.simps example_horse_def)
  from children_order[OF d, of ?C scenario ?A ?B] both
  obtain t where t: "buildD3AncestryData (Some ?C) scenario 3 0 = Some t"
    and ct: "map node_id (children t) = [JNum 1, JNum 2]"
    unfolding s by auto
  from children_order[OF d, of ?D dangling ?A ?B] mother_only
  obtain u where u: "buildD3AncestryData (Some ?D) dangling 3 0 = Some u"
    and cu: "map node_id (children u) = [JNum 2]"
    unfolding s by auto
  from children_order[OF d, of ?E scenario ?A ?B] father_only
  obtain v where v: "buildD3AncestryData (Some ?E) scenario 3 0 = Some v"
    and cv: "map node_id (children v) = [JNum 1]"
    unfolding s by auto
  from children_order[OF d, of ?A scenario ?A ?B] neither
  obtain w where w: "buildD3AncestryData (Some ?A) scenario 3 0 = Some w"
    and cw: "children w = []"
    by auto
  show ?thesis
    using d none t ct u cu v cv w cw by simp
qed


section \<open>Properties of capitalizeEachWord\<close>

lemma plain_boundaries_letter: "plain_boundaries U \<Longrightarrow> is_L U c \<Longrightarrow> \<not> is_boundary c"
  by (simp add: plain_boundaries_def)

lemma plain_boundaries_upper:
  "plain_boundaries U \<Longrightarrow> is_boundary b \<Longrightarrow> toUpperCase U [b, c] = b # toUpperCase U [c]"
  by (simp add: plain_boundaries_def)

lemma replace_after_from:
  "plain_boundaries U \<Longrightarrow> replace_after U s = capitalize_from U False s"
proof (induction U s rule: replace_after.induct)
  case (1 U a b s)
  show ?case
  proof (cases "is_boundary a \<and> is_L U b")
    case True
    then have "\<not> is_boundary b" and "toUpperCase U [a, b] = a # toUpperCase U [b]"
      using "1.prems" by (simp_all add: plain_boundaries_letter plain_boundaries_upper)
    with True 1 show ?thesis by simp
  next
    case False
    with 1 show ?thesis by auto
  qed
qed simp_all

lemma replace_initials_from:
  assumes "plain_boundaries U"
  shows "replace_initials U s = capitalize_from U True s"
proof (cases s)
  case Nil
  then show ?thesis by (simp add: replace_initials_def)
next
  case (Cons a r)
  show ?thesis
  proof (cases "is_L U a")
    case True
    then have "\<not> is_boundary a"
      using assms by (auto simp: plain_boundaries_def)
    with True Cons show ?thesis
      by (simp add: replace_initials_def replace_after_from[OF assms])
  next
    case False
    with Cons show ?thesis
      by (simp add: replace_initials_def replace_after_from[OF assms])
  qed
qed

lemma split_segments_Nil: "split_segments s = [] \<longleftrightarrow> s = []"
  by (cases s) (simp_all split: list.splits)

lemma capitalize_first_simps:
  "capitalize_first U [] = []"
  "capitalize_first U (c # r) = (if is_L U c then toUpperCase U [c] @ r else c # r)"
  by (simp_all add: capitalize_first_def)

lemma capitalize_segments_from_aux:
  assumes "plain_boundaries U"
  shows "concat (map (capitalize_first U) (split_segments s)) = capitalize_from U True s \<and>
    (case split_segments s of
       [] \<Rightarrow> True
     | p # ps \<Rightarrow> p @ concat (map (capitalize_first U) ps) = capitalize_from U False s)"
proof (induction s)
  case Nil
  show ?case by simp
next
  case (Cons c s)
  show ?case
  proof (cases "is_boundary c")
    case True
    then have "\<not> is_L U c"
      using assms by (auto simp: plain_boundaries_def)
    with True Cons show ?thesis
      by (simp add: capitalize_first_simps)
  next
    case False
    show ?thesis
    proof (cases "split_segments s")
      case Nil
      then have "s = []" by (simp add: split_segments_Nil)
      with False show ?thesis
        by (simp add: capitalize_first_simps)
    next
      case (Cons p ps)
      with False Cons.IH show ?thesis
        by (simp add: capitalize_first_simps)
    qed
  qed
qed

lemma capitalize_segments_from:
  "plain_boundaries U \<Longrightarrow> capitalize_segments U s = capitalize_from U True s"
  by (simp add: capitalize_segments_def capitalize_segments_from_aux)

lemma capitalizeEachWord_spec:
  "plain_boundaries U \<Longrightarrow> capitalizeEachWord U s = lowercase_then_capitalize U s"
  by (simp add: capitalizeEachWord_def lowercase_then_capitalize_def replace_initials_from
      capitalize_segments_from plain_boundaries_def)

lemma latin1_simps:
  "toLowerCase latin1 = map lower_cp"
  "toUpperCase latin1 s = concat (map upper_cp s)"
  "is_L latin1 = letter_cp"
  by (simp_all add: latin1_def)

lemma boundary_cases:
  "is_boundary c \<Longrightarrow> c < 48 \<or> c = 160 \<or> 5760 \<le> c"
  by (auto simp: is_boundary_def is_space_def)

lemma letter_not_boundary: "letter_cp c \<Longrightarrow> \<not> is_boundary c"
  by (auto simp: letter_cp_def dest!: boundary_cases)

lemma upper_boundary: "is_boundary c \<Longrightarrow> upper_cp c = [c]"
  by (auto simp: upper_cp_def dest!: boundary_cases)

lemma plain_boundaries_latin1: "plain_boundaries latin1"
  by (simp add: plain_boundaries_def latin1_simps letter_not_boundary upper_boundary)












lemmas text_defs = capitalizeEachWord_def replace_initials_def latin1_def lower_cp_def upper_cp_def
  letter_cp_def is_boundary_def is_space_def ascii_def

lemmas normalization_defs = capitalize_segments_def capitalize_first_def
  lowercase_then_capitalize_def

subsection \<open>The claims about the normalization of text\<close>

text \<open>
  The sentence of claim C8 read as it is written, the first letter of each segment put
  in upper case and nothing else changed, does not describe the submitted value: the
  typed name \<open>REX\<close> is submitted as \<open>Rex\<close>.
\<close>

theorem submitted_text_lowercased:
  "new_name (new_horse_data latin1 example_form) = ascii ''Rex'' \<and>
   capitalize_segments latin1 (name_input example_form) = ascii ''REX'' \<and>
   new_name (new_horse_data latin1 example_form) \<noteq> capitalize_segments latin1 (name_input example_form)"
  by (simp add: new_horse_data_def example_form_def text_defs normalization_defs)

text \<open>
  Claim C8, amended.  Before submission the form puts the whole text of name, breed
  and sex in lower case and then the first letter of each word-like segment in upper
  case, where a segment is bounded by white space and the characters \<open>/\<close>, \<open>-\<close>, \<open>'\<close>
  and \<open>"\<close>, and its first letter is a letter at the very start of the text or directly
  behind a boundary character.  For every typed string the submitted value is this
  normalization of the typed value, and it is what an accepted form passes to
  \<open>addHorse\<close>.
\<close>

theorem submitted_text_normalized:
  assumes "plain_boundaries U"
  shows "new_name (new_horse_data U f) = lowercase_then_capitalize U (name_input f) \<and>
     new_breed (new_horse_data U f) = lowercase_then_capitalize U (breed_input f) \<and>
     new_sex (new_horse_data U f) = lowercase_then_capitalize U (sex_input f) \<and>
     (name_input f \<noteq> [] \<and> breed_input f \<noteq> [] \<and> age_input f \<noteq> [] \<and> sex_input f \<noteq> [] \<longrightarrow>
        snd (handleSubmit U r f s) = addHorse (new_horse_data U f) r s)"
  using assms by (simp add: new_horse_data_def handleSubmit_def capitalizeEachWord_spec)

theorem submitted_text_normalized_witness:
  "plain_boundaries latin1 \<and>
   new_name (new_horse_data latin1 example_form) = ascii ''Rex'' \<and>
   lowercase_then_capitalize latin1 (name_input example_form) = ascii ''Rex'' \<and>
   new_breed (new_horse_data latin1 example_form) = ascii ''Puro-Sangue Lusitano'' \<and>
   name_input example_form \<noteq> [] \<and> breed_input example_form \<noteq> [] \<and>
   age_input example_form \<noteq> [] \<and> sex_input example_form \<noteq> [] \<and>
   snd (handleSubmit latin1 example_responses example_form initial_app) =
     addHorse (new_horse_data latin1 example_form) example_responses initial_app"
proof -
  have v: "name_input example_form \<noteq> [] \<and> breed_input example_form \<noteq> [] \<and>
      age_input example_form \<noteq> [] \<and> sex_input example_form \<noteq> []"
    by (simp add: example_form_def ascii_def)
  have n: "lowercase_then_capitalize latin1 (name_input example_form) = ascii ''Rex''"
    "lowercase_then_capitalize latin1 (breed_input example_form) = ascii ''Puro-Sangue Lusitano''"
    by (simp_all add: example_form_def text_defs normalization_defs)
  from submitted_text_normalized[OF plain_boundaries_latin1, of example_form example_responses initial_app] v n
  show ?thesis
    using plain_boundaries_latin1 by simp
qed




section \<open>Properties of handleSubmit and addHorse\<close>

lemmas app_defs = handleSubmit_def addHorse_def upload_photo_def insert_horse_def new_horse_data_def

text \<open>A submission in which everything succeeds.\<close>

lemma example_run:
  "handleSubmit latin1 example_responses example_form (initial_app\<lparr>loading := False, viewMode := View_add\<rparr>) =
   (empty_form,
    initial_app\<lparr>loading := False, viewMode := View_list,
      horses := [example_horse 4 ''Rex'' JNull JNull],
      alerts := [ascii ''Cavalo adicionado com sucesso!''],
      requests := [Upload (ascii ''public/1b4e28ba.jpg'') \<lparr>file_name = ascii ''rex.foto.jpg''\<rparr>,
        GetPublicUrl (ascii ''public/1b4e28ba.jpg''),
        Insert \<lparr>ins_nome = ascii ''Rex'', ins_raca = ascii ''Puro-Sangue Lusitano'',
          ins_idade = Some 7, ins_sexo = ascii ''Macho'', ins_pai_id = JNull, ins_mae_id = JNull,
          ins_url_imagem = Some (ascii ''https://cdn.example/public/1b4e28ba.jpg'')\<rparr>]\<rparr>)"
  by (simp add: app_defs text_defs example_form_def example_responses_def initial_app_def
      split_pop_def parseInt_def is_digit_def digit_value_def digits_value_def Let_def)

subsection \<open>The claims about the submission of the form\<close>

text \<open>
  Claim C5.  When a photo is attached and the upload fails, or the upload succeeds and
  no public URL is obtained for it, \<open>addHorse\<close> stops before the insert: the only
  requests sent are the upload and, in the second case, the look-up of the URL, so no
  record is written to the store; the collection in memory is unchanged and the
  failure is in the \<open>error\<close> state.
\<close>

theorem upload_failure_aborts:
  assumes "photoFile d = Some file"
    and "path = ascii ''public/'' @ uuid r @ ascii ''.'' @ split_pop (file_name file)"
  shows "(upload_error r = Some message \<longrightarrow>
       requests (addHorse d r s) = requests s @ [Upload path file] \<and>
       horses (addHorse d r s) = horses s \<and>
       error (addHorse d r s) = Some (failure_message message)) \<and>
     (upload_error r = None \<and> (\<forall>u. public_url_data r = Some (Some u) \<longrightarrow> u = []) \<longrightarrow>
       requests (addHorse d r s) = requests s @ [Upload path file, GetPublicUrl path] \<and>
       horses (addHorse d r s) = horses s \<and>
       error (addHorse d r s) = Some (failure_message no_public_url_message)) \<and>
     (upload_error r \<noteq> None \<or> (\<forall>u. public_url_data r = Some (Some u) \<longrightarrow> u = []) \<longrightarrow>
       (\<forall>row. Insert row \<in> set (requests (addHorse d r s)) \<longrightarrow> Insert row \<in> set (requests s)))"
  using assms
  by (auto simp: addHorse_def upload_photo_def Let_def split: option.splits)

theorem upload_failure_aborts_witness:
  "photoFile (new_horse_data latin1 example_form) = Some \<lparr>file_name = ascii ''rex.foto.jpg''\<rparr> \<and>
   ascii ''public/1b4e28ba.jpg'' =
     ascii ''public/'' @ uuid example_responses @ ascii ''.'' @
       split_pop (file_name \<lparr>file_name = ascii ''rex.foto.jpg''\<rparr>) \<and>
   requests (addHorse (new_horse_data latin1 example_form)
       (example_responses\<lparr>upload_error := Some (ascii ''Payload too large'')\<rparr>) initial_app) =
     [Upload (ascii ''public/1b4e28ba.jpg'') \<lparr>file_name = ascii ''rex.foto.jpg''\<rparr>] \<and>
   horses (addHorse (new_horse_data latin1 example_form)
       (example_responses\<lparr>upload_error := Some (ascii ''Payload too large'')\<rparr>) initial_app) = [] \<and>
   upload_error (example_responses\<lparr>public_url_data := Some None\<rparr>) = None \<and>
   public_url_data (example_responses\<lparr>public_url_data := Some None\<rparr>) = Some None \<and>
   requests (addHorse (new_horse_data latin1 example_form)
       (example_responses\<lparr>public_url_data := Some None\<rparr>) initial_app) =
     [Upload (ascii ''public/1b4e28ba.jpg'') \<lparr>file_name = ascii ''rex.foto.jpg''\<rparr>,
      GetPublicUrl (ascii ''public/1b4e28ba.jpg'')] \<and>
   horses (addHorse (new_horse_data latin1 example_form)
       (example_responses\<lparr>public_url_data := Some None\<rparr>) initial_app) = []"
proof -
  let ?d = "new_horse_data latin1 example_form"
  let ?r1 = "example_responses\<lparr>upload_error := Some (ascii ''Payload too large'')\<rparr>"
  let ?r2 = "example_responses\<lparr>public_url_data := Some None\<rparr>"
  let ?file = "\<lparr>file_name = ascii ''rex.foto.jpg''\<rparr>"
  have p: "photoFile ?d = Some ?file"
    by (simp add: new_horse_data_def example_form_def)
  have q: "ascii ''public/1b4e28ba.jpg'' =
      ascii ''public/'' @ uuid example_responses @ ascii ''.'' @ split_pop (file_name ?file)"
    by (simp add: example_responses_def split_pop_def ascii_def)
  have q1: "ascii ''public/1b4e28ba.jpg'' = ascii ''public/'' @ uuid ?r1 @ ascii ''.'' @ split_pop (file_name ?file)"
    and q2: "ascii ''public/1b4e28ba.jpg'' = ascii ''public/'' @ uuid ?r2 @ ascii ''.'' @ split_pop (file_name ?file)"
    using q by simp_all
  have u1: "upload_error ?r1 = Some (ascii ''Payload too large'')"
    by simp
  have u2: "upload_error ?r2 = None" "\<forall>u. public_url_data ?r2 = Some (Some u) \<longrightarrow> u = []"
    by (simp_all add: example_responses_def)
  have e: "requests initial_app = []" "horses initial_app = []"
    by (simp_all add: initial_app_def)
  from upload_failure_aborts[OF p q1, of "ascii ''Payload too large''" initial_app] u1
  have a1: "requests (addHorse ?d ?r1 initial_app) = [Upload (ascii ''public/1b4e28ba.jpg'') ?file]"
    "horses (addHorse ?d ?r1 initial_app) = []"
    unfolding e by simp_all
  from upload_failure_aborts[OF p q2, of "[]" initial_app] u2
  have a2: "requests (addHorse ?d ?r2 initial_app) =
      [Upload (ascii ''public/1b4e28ba.jpg'') ?file, GetPublicUrl (ascii ''public/1b4e28ba.jpg'')]"
    "horses (addHorse ?d ?r2 initial_app) = []"
    unfolding e by simp_all
  have u3: "public_url_data ?r2 = Some None"
    by simp
  from p q a1 u2(1) u3 a2 show ?thesis
    by (intro conjI)
qed

text \<open>
  The form is not retained when \<open>addHorse\<close> fails: \<open>handleSubmit\<close> resets its fields as
  soon as it has called \<open>onAddHorse\<close>, whatever the outcome.  Here the insert fails, the
  failure is reported, and the form is empty.
\<close>

theorem form_not_retained:
  "error (snd (handleSubmit latin1 (example_responses\<lparr>insert_response := Inl (ascii ''timeout'')\<rparr>)
       example_form (initial_app\<lparr>loading := False, viewMode := View_add\<rparr>))) =
     Some (ascii ''Falha ao adicionar cavalo: timeout'') \<and>
   fst (handleSubmit latin1 (example_responses\<lparr>insert_response := Inl (ascii ''timeout'')\<rparr>)
       example_form (initial_app\<lparr>loading := False, viewMode := View_add\<rparr>)) = empty_form \<and>
   fst (handleSubmit latin1 (example_responses\<lparr>insert_response := Inl (ascii ''timeout'')\<rparr>)
       example_form (initial_app\<lparr>loading := False, viewMode := View_add\<rparr>)) \<noteq> example_form"
  by (simp add: app_defs example_form_def example_responses_def initial_app_def empty_form_def
      failure_message_def ascii_def Let_def)

text \<open>
  Claim C6, amended.  When \<open>addHorse\<close> fails at either step (the upload, the look-up
  of the public URL, or the insert) after a form has been accepted in view mode \<open>add\<close>,
  the failure is reported in the \<open>error\<close> state and in an alert, the view mode
  remains \<open>add\<close> and the collection is unchanged; the fields of the form have been
  reset by the submission and are not kept.
\<close>

theorem add_failure_reported:
  assumes "name_input f \<noteq> []" "breed_input f \<noteq> []" "age_input f \<noteq> []" "sex_input f \<noteq> []"
    and "viewMode s = View_add"
  shows "(selectedFile f \<noteq> None \<and> upload_error r = Some message \<longrightarrow>
       add_failed s (handleSubmit U r f s) message) \<and>
     (selectedFile f \<noteq> None \<and> upload_error r = None \<and>
        (\<forall>u. public_url_data r = Some (Some u) \<longrightarrow> u = []) \<longrightarrow>
       add_failed s (handleSubmit U r f s) no_public_url_message) \<and>
     ((selectedFile f = None \<or>
        (upload_error r = None \<and> (\<exists>u. public_url_data r = Some (Some u) \<and> u \<noteq> []))) \<and>
        insert_response r = Inl message \<longrightarrow>
       add_failed s (handleSubmit U r f s) message)"
  using assms
  by (auto simp: add_failed_def app_defs Let_def split: option.splits)

theorem add_failure_reported_witness:
  "name_input example_form \<noteq> [] \<and> breed_input example_form \<noteq> [] \<and> age_input example_form \<noteq> [] \<and>
   sex_input example_form \<noteq> [] \<and>
   viewMode (initial_app\<lparr>loading := False, viewMode := View_add\<rparr>) = View_add \<and>
   selectedFile example_form \<noteq> None \<and>
   add_failed (initial_app\<lparr>loading := False, viewMode := View_add\<rparr>)
     (handleSubmit latin1 (example_responses\<lparr>upload_error := Some (ascii ''Payload too large'')\<rparr>)
        example_form (initial_app\<lparr>loading := False, viewMode := View_add\<rparr>))
     (ascii ''Payload too large'') \<and>
   add_failed (initial_app\<lparr>loading := False, viewMode := View_add\<rparr>)
     (handleSubmit latin1 (example_responses\<lparr>public_url_data := None\<rparr>)
        example_form (initial_app\<lparr>loading := False, viewMode := View_add\<rparr>))
     no_public_url_message \<and>
   add_failed (initial_app\<lparr>loading := False, viewMode := View_add\<rparr>)
     (handleSubmit latin1 (example_responses\<lparr>insert_response := Inl (ascii ''timeout'')\<rparr>)
        example_form (initial_app\<lparr>loading := False, viewMode := View_add\<rparr>))
     (ascii ''timeout'')"
proof -
  let ?s = "initial_app\<lparr>loading := False, viewMode := View_add\<rparr>"
  let ?r1 = "example_responses\<lparr>upload_error := Some (ascii ''Payload too large'')\<rparr>"
  let ?r2 = "example_responses\<lparr>public_url_data := None\<rparr>"
  let ?r3 = "example_responses\<lparr>insert_response := Inl (ascii ''timeout'')\<rparr>"
  have v: "name_input example_form \<noteq> []" "breed_input example_form \<noteq> []"
    "age_input example_form \<noteq> []" "sex_input example_form \<noteq> []"
    by (simp_all add: example_form_def ascii_def)
  have m: "viewMode ?s = View_add"
    by simp
  have f: "selectedFile example_form \<noteq> None"
    by (simp add: example_form_def)
  have h1: "upload_error ?r1 = Some (ascii ''Payload too large'')"
    by simp
  have h2: "upload_error ?r2 = None \<and> (\<forall>u. public_url_data ?r2 = Some (Some u) \<longrightarrow> u = [])"
    by (simp add: example_responses_def)
  have h3: "upload_error ?r3 = None \<and> (\<exists>u. public_url_data ?r3 = Some (Some u) \<and> u \<noteq> [])"
    "insert_response ?r3 = Inl (ascii ''timeout'')"
    by (simp_all add: example_responses_def ascii_def)
  have a1: "add_failed ?s (handleSubmit latin1 ?r1 example_form ?s) (ascii ''Payload too large'')"
    using add_failure_reported[OF v m, of ?r1 "ascii ''Payload too large''" latin1] f h1 by blast
  have a2: "add_failed ?s (handleSubmit latin1 ?r2 example_form ?s) no_public_url_message"
    using add_failure_reported[OF v m, of ?r2 "[]" latin1] f h2 by blast
  have a3: "add_failed ?s (handleSubmit latin1 ?r3 example_form ?s) (ascii ''timeout'')"
    using add_failure_reported[OF v m, of ?r3 "ascii ''timeout''" latin1] h3 by blast
  from v m f a1 a2 a3 show ?thesis
    by (intro conjI)
qed

text \<open>
  Claim C9.  When the form is submitted with "none registered" for both parents
  (\<open>fatherId\<close> and \<open>motherId\<close> are the empty string), both parent references of the
  object given to \<open>addHorse\<close> are \<open>null\<close>, and so are those of every record that the
  submission passes to the store; an accepted form without a photo passes exactly one
  such record.
\<close>

theorem none_registered_is_null:
  assumes "fatherId_input f = []" "motherId_input f = []"
  shows "fatherId (new_horse_data U f) = JNull \<and> motherId (new_horse_data U f) = JNull \<and>
     (\<forall>row. Insert row \<in> set (requests (snd (handleSubmit U r f s))) \<longrightarrow>
        Insert row \<in> set (requests s) \<or> (ins_pai_id row = JNull \<and> ins_mae_id row = JNull)) \<and>
     (name_input f \<noteq> [] \<and> breed_input f \<noteq> [] \<and> age_input f \<noteq> [] \<and> sex_input f \<noteq> [] \<and>
        selectedFile f = None \<longrightarrow>
        (\<exists>row. requests (snd (handleSubmit U r f s)) = requests s @ [Insert row] \<and>
           ins_pai_id row = JNull \<and> ins_mae_id row = JNull))"
  using assms
  by (auto simp: app_defs Let_def split: option.splits sum.splits)

theorem none_registered_is_null_witness:
  "fatherId_input (example_form\<lparr>selectedFile := None\<rparr>) = [] \<and>
   motherId_input (example_form\<lparr>selectedFile := None\<rparr>) = [] \<and>
   requests (snd (handleSubmit latin1 example_responses (example_form\<lparr>selectedFile := None\<rparr>) initial_app)) =
     [Insert \<lparr>ins_nome = ascii ''Rex'', ins_raca = ascii ''Puro-Sangue Lusitano'',
        ins_idade = Some 7, ins_sexo = ascii ''Macho'', ins_pai_id = JNull, ins_mae_id = JNull,
        ins_url_imagem = None\<rparr>] \<and>
   list_all (\<lambda>q. case q of Insert row \<Rightarrow> ins_pai_id row = JNull \<and> ins_mae_id row = JNull | _ \<Rightarrow> True)
     (requests (snd (handleSubmit latin1 example_responses
        (example_form\<lparr>selectedFile := None\<rparr>) initial_app)))"
proof -
  let ?f = "example_form\<lparr>selectedFile := None\<rparr>"
  have e: "fatherId_input ?f = []" "motherId_input ?f = []"
    by (simp_all add: example_form_def)
  have q: "requests (snd (handleSubmit latin1 example_responses ?f initial_app)) =
     [Insert \<lparr>ins_nome = ascii ''Rex'', ins_raca = ascii ''Puro-Sangue Lusitano'',
        ins_idade = Some 7, ins_sexo = ascii ''Macho'', ins_pai_id = JNull, ins_mae_id = JNull,
        ins_url_imagem = None\<rparr>]"
    by (simp add: app_defs text_defs example_form_def example_responses_def initial_app_def
        parseInt_def is_digit_def digit_value_def digits_value_def Let_def)
  have "requests initial_app = []"
    by (simp add: initial_app_def)
  with none_registered_is_null[OF e, of latin1 example_responses initial_app]
  have "\<forall>row. Insert row \<in> set (requests (snd (handleSubmit latin1 example_responses ?f initial_app))) \<longrightarrow>
      ins_pai_id row = JNull \<and> ins_mae_id row = JNull"
    by simp
  then have "list_all (\<lambda>q. case q of Insert row \<Rightarrow> ins_pai_id row = JNull \<and> ins_mae_id row = JNull | _ \<Rightarrow> True)
     (requests (snd (handleSubmit latin1 example_responses ?f initial_app)))"
    by (auto simp: list_all_iff split: request.splits)
  with e q show ?thesis
    by (intro conjI)
qed

section \<open>Properties of the share link\<close>

lemmas url_defs = shareUrl_def encodeURIComponent_def unreserved_def is_surrogate_def startup_effect_def
  URLSearchParams_def get_def urlencoded_text_def decodeURIComponent_def utf8_def hex_value_def
  sequence_length_def lead_payload_def utf8_value_def escape_def hex_digit_def

lemma continuation_numeral:
  "continuation (numeral k) lo hi (b # bs) =
     (if lo \<le> b \<and> b \<le> hi then b # continuation (pred_numeral k) 128 191 bs else [])"
  by (simp add: numeral_eq_Suc)

text \<open>Values of the built-in functions, as a check of their model.\<close>

lemma URLSearchParams_examples:
  "URLSearchParams (ascii ''?id=42&shared=true'') =
     [(ascii ''id'', ascii ''42''), (ascii ''shared'', ascii ''true'')]"
  "URLSearchParams (ascii ''?a=1+2&&b&id=%C3%A9%41%zz%e2%82%ac%ff=x'') =
     [(ascii ''a'', ascii ''1 2''), (ascii ''b'', []),
      (ascii ''id'', [233, 65] @ ascii ''%zz'' @ [8364, 65533] @ ascii ''=x'')]"
  by (simp_all add: url_defs ascii_def Let_def continuation_numeral)

lemma encodeURIComponent_example:
  "encodeURIComponent (ascii ''a b/'' @ [233, 8364, 128512]) =
     Some (ascii ''a%20b%2F%C3%A9%E2%82%AC%F0%9F%98%80'')"
  by (simp add: url_defs ascii_def Let_def)

lemma decodeURIComponent_examples:
  "decodeURIComponent (ascii ''a%20b%2F%C3%A9%E2%82%AC%F0%9F%98%80'') =
     Some (ascii ''a b/'' @ [233, 8364, 128512])"
  "decodeURIComponent (ascii ''100%'') = None"
  "decodeURIComponent (ascii ''%C3x'') = None"
  "decodeURIComponent (ascii ''%C0%80'') = None"
  by (simp_all add: url_defs ascii_def Let_def)

lemma utf8_decode_example:
  "utf8_decode [240, 159, 152, 128, 237, 160, 128, 224, 128, 65, 195] =
     [128512, 65533, 65533, 65533, 65533, 65533, 65, 65533]"
  by (simp add: url_defs Let_def continuation_numeral)

lemma to_string_examples:
  "to_string (JNum 42) = ascii ''42''"
  "to_string (JNum (- 305)) = ascii ''-305''"
  "to_string (JNum 0) = ascii ''0''"
  by (simp_all add: decimal.simps ascii_def)

subsection \<open>The round trip of an id of unreserved characters\<close>

text \<open>
  An id made of letters, digits and \<open>- _ . ! ~ * ' ( )\<close>, as a decimal number and a UUID
  are, passes through \<open>encodeURIComponent\<close> unchanged, is the value that
  \<open>URLSearchParams\<close> finds for \<open>id\<close> in the query string of the share URL, and passes
  through \<open>decodeURIComponent\<close> unchanged.
\<close>

lemma unreserved_ascii: "unreserved c \<Longrightarrow> c < 128 \<and> c \<noteq> 37 \<and> c \<noteq> 38 \<and> c \<noteq> 43"
  by (auto simp: unreserved_def)

lemma utf8_bytes_ascii:
  "\<forall>c \<in> set s. c < 128 \<Longrightarrow>
   concat (map (\<lambda>c. utf8 (if is_surrogate c then 65533 else c)) s) = s"
  by (induction s) (auto simp: utf8_def is_surrogate_def)

lemma split_on_none: "d \<notin> set a \<Longrightarrow> split_on d a = [a]"
  by (induction a) auto

lemma split_on_append: "d \<notin> set a \<Longrightarrow> split_on d (a @ d # b) = a # split_on d b"
  by (induction a) auto

lemma percent_decode_plain: "37 \<notin> set s \<Longrightarrow> percent_decode s = s"
  by (induction s rule: percent_decode.induct) auto

lemma utf8_decode_ascii: "\<forall>c \<in> set s. c < 128 \<Longrightarrow> utf8_decode s = s"
  by (induction s) auto

lemma urlencoded_text_plain:
  assumes "\<forall>c \<in> set s. unreserved c"
  shows "urlencoded_text s = s"
proof -
  have "map (\<lambda>b. if b = 43 then 32 else b) s = s"
    using assms by (induction s) (auto dest: unreserved_ascii)
  moreover have "37 \<notin> set s" "\<forall>c \<in> set s. c < 128"
    using assms by (auto dest: unreserved_ascii)
  ultimately show ?thesis
    by (simp add: urlencoded_text_def percent_decode_plain utf8_decode_ascii)
qed

lemma unescape_plain: "37 \<notin> set s \<Longrightarrow> unescape s = Some (map Unit s)"
  by (induction s) auto

lemma assemble_units: "assemble (map Unit s) = Some s"
  by (induction s) auto

lemma decodeURIComponent_plain: "\<forall>c \<in> set s. unreserved c \<Longrightarrow> decodeURIComponent s = Some s"
  by (auto simp: decodeURIComponent_def unescape_plain assemble_units dest: unreserved_ascii)

lemma encodeURIComponent_plain: "\<forall>c \<in> set s. unreserved c \<Longrightarrow> encodeURIComponent s = Some s"
proof -
  assume a: "\<forall>c \<in> set s. unreserved c"
  then have "\<forall>c \<in> set s. c < 128"
    by (auto dest: unreserved_ascii)
  then have "\<not> (\<exists>c \<in> set s. is_surrogate c)"
    by (fastforce simp: is_surrogate_def)
  moreover have "concat (map (\<lambda>c. if unreserved c then [c] else concat (map escape (utf8 c))) s) = s"
    using a by (induction s) auto
  ultimately show ?thesis
    by (simp add: encodeURIComponent_def)
qed

lemma URLSearchParams_share:
  assumes "\<forall>c \<in> set i. unreserved c"
  shows "URLSearchParams (ascii ''?id='' @ i @ ascii ''&shared=true'') =
    [(ascii ''id'', i), (ascii ''shared'', ascii ''true'')]"
proof -
  let ?input = "ascii ''id='' @ i @ ascii ''&shared=true''"
  have small: "\<forall>c \<in> set ?input. c < 128"
    using assms by (auto simp: ascii_def dest: unreserved_ascii)
  have amp: "38 \<notin> set (ascii ''id='' @ i)" "38 \<notin> set (ascii ''shared=true'')"
    using assms by (auto simp: ascii_def dest: unreserved_ascii)
  have "?input = (ascii ''id='' @ i) @ 38 # ascii ''shared=true''"
    by (simp add: ascii_def)
  moreover have "split_on 38 ((ascii ''id='' @ i) @ 38 # ascii ''shared=true'') =
      (ascii ''id='' @ i) # split_on 38 (ascii ''shared=true'')"
    using amp(1) by (rule split_on_append)
  moreover have "split_on 38 (ascii ''shared=true'') = [ascii ''shared=true'']"
    using amp(2) by (rule split_on_none)
  ultimately have pieces: "split_on 38 ?input = [ascii ''id='' @ i, ascii ''shared=true'']"
    by simp
  have strip: "(case ascii ''?id='' @ i @ ascii ''&shared=true'' of [] \<Rightarrow> []
      | c # r \<Rightarrow> if c = 63 then r else ascii ''?id='' @ i @ ascii ''&shared=true'') = ?input"
    by (simp add: ascii_def)
  have texts: "urlencoded_text (ascii ''id'') = ascii ''id''" "urlencoded_text (ascii ''shared'') = ascii ''shared''"
    "urlencoded_text (ascii ''true'') = ascii ''true''" "urlencoded_text i = i"
    using assms by (simp_all add: urlencoded_text_plain) (simp_all add: urlencoded_text_def ascii_def)
  show ?thesis
    unfolding URLSearchParams_def Let_def strip utf8_bytes_ascii[OF small] pieces
    using texts by (simp add: ascii_def)
qed

lemma share_roundtrip_unreserved:
  assumes "\<forall>c \<in> set i. unreserved c" and "i \<noteq> []"
  shows "shareUrl origin (h\<lparr>horse_id := JStr i\<rparr>) = Some (origin @ ascii ''/?id='' @ i @ ascii ''&shared=true'') \<and>
     startup_effect (ascii ''?id='' @ i @ ascii ''&shared=true'') s =
       Some (s\<lparr>selectedHorseId := JStr i, viewMode := View_details, isSharedView := True\<rparr>)"
proof
  show "shareUrl origin (h\<lparr>horse_id := JStr i\<rparr>) =
      Some (origin @ ascii ''/?id='' @ i @ ascii ''&shared=true'')"
    using assms(1) by (simp add: shareUrl_def encodeURIComponent_plain)
next
  have "get [(ascii ''id'', i), (ascii ''shared'', ascii ''true'')] (ascii ''id'') = Some i"
    "get [(ascii ''id'', i), (ascii ''shared'', ascii ''true'')] (ascii ''shared'') = Some (ascii ''true'')"
    by (simp_all add: get_def ascii_def)
  then show "startup_effect (ascii ''?id='' @ i @ ascii ''&shared=true'') s =
      Some (s\<lparr>selectedHorseId := JStr i, viewMode := View_details, isSharedView := True\<rparr>)"
    unfolding startup_effect_def Let_def URLSearchParams_share[OF assms(1)]
    using assms by (simp add: decodeURIComponent_plain)
qed

subsection \<open>The claim about the share link\<close>

text \<open>
  Claim C7.  For the horse with id \<open>"42"\<close> the share action produces exactly
  \<open><origin>/?id=42&shared=true\<close>, for every origin; and the effect at the start, run on
  the query string of this URL (what follows \<open><origin>/\<close>), sets the selected id to
  \<open>"42"\<close>, the view mode to \<open>details\<close> and the shared flag to true.
\<close>

theorem share_link_roundtrip:
  "shareUrl origin (h\<lparr>horse_id := JStr (ascii ''42'')\<rparr>) = Some (origin @ ascii ''/?id=42&shared=true'') \<and>
   startup_effect (drop (length origin + 1) (origin @ ascii ''/?id=42&shared=true'')) s =
     Some (s\<lparr>selectedHorseId := JStr (ascii ''42''), viewMode := View_details, isSharedView := True\<rparr>)"
proof -
  have u: "\<forall>c \<in> set (ascii ''42''). unreserved c" and n: "ascii ''42'' \<noteq> []"
    by (simp_all add: ascii_def unreserved_def)
  have q: "ascii ''/?id='' @ ascii ''42'' @ ascii ''&shared=true'' = ascii ''/?id=42&shared=true''"
    "ascii ''?id='' @ ascii ''42'' @ ascii ''&shared=true'' = ascii ''?id=42&shared=true''"
    "drop (length origin + 1) (origin @ ascii ''/?id=42&shared=true'') = ascii ''?id=42&shared=true''"
    by (simp_all add: ascii_def)
  from share_roundtrip_unreserved[OF u n, of origin h s] show ?thesis
    unfolding q .
qed

end
